theory Spec2Isabelle
  imports
    Complex_Main
    "HOL-Library.Sublist"
    "HOL-Library.AList"
    "HOL-Library.Char_ord"
    "HOL-Library.List_Lexorder"
begin

section \<open>Strings: the library functions the service calls\<close>

text \<open>
  A Go string is a sequence of bytes; here it is a \<open>string\<close>, a list of 8-bit characters.
  \<open>strings.TrimSpace\<close> removes leading and trailing white space as Unicode defines it
  (\<open>unicode.IsSpace\<close>). On the bytes of a string these are the UTF-8 encodings below: the
  six ASCII ones, NEL and NBSP (two bytes each) and the three-byte ones of the \<open>White_Space\<close>
  table. Every such encoding starts at a rune boundary, so a prefix or suffix that equals
  one of them decodes to that rune; a byte that starts no such encoding stops the trimming.
\<close>

definition White_Space :: "string list" where
  "White_Space =
    [[CHR 0x09], [CHR 0x0A], [CHR 0x0B], [CHR 0x0C], [CHR 0x0D], [CHR 0x20],
     [CHR 0xC2, CHR 0x85], [CHR 0xC2, CHR 0xA0],
     [CHR 0xE1, CHR 0x9A, CHR 0x80],
     [CHR 0xE2, CHR 0x80, CHR 0x80], [CHR 0xE2, CHR 0x80, CHR 0x81],
     [CHR 0xE2, CHR 0x80, CHR 0x82], [CHR 0xE2, CHR 0x80, CHR 0x83],
     [CHR 0xE2, CHR 0x80, CHR 0x84], [CHR 0xE2, CHR 0x80, CHR 0x85],
     [CHR 0xE2, CHR 0x80, CHR 0x86], [CHR 0xE2, CHR 0x80, CHR 0x87],
     [CHR 0xE2, CHR 0x80, CHR 0x88], [CHR 0xE2, CHR 0x80, CHR 0x89],
     [CHR 0xE2, CHR 0x80, CHR 0x8A],
     [CHR 0xE2, CHR 0x80, CHR 0xA8], [CHR 0xE2, CHR 0x80, CHR 0xA9],
     [CHR 0xE2, CHR 0x80, CHR 0xAF],
     [CHR 0xE2, CHR 0x81, CHR 0x9F],
     [CHR 0xE3, CHR 0x80, CHR 0x80]]"

definition leadingSpace :: "string \<Rightarrow> nat" where
  "leadingSpace s = (case find (\<lambda>e. prefix e s) White_Space of None \<Rightarrow> 0 | Some e \<Rightarrow> length e)"

definition trailingSpace :: "string \<Rightarrow> nat" where
  "trailingSpace s = (case find (\<lambda>e. suffix e s) White_Space of None \<Rightarrow> 0 | Some e \<Rightarrow> length e)"

function TrimLeft :: "string \<Rightarrow> string" where
  "TrimLeft s = (if leadingSpace s = 0 then s else TrimLeft (drop (leadingSpace s) s))"
  by pat_completeness auto

function TrimRight :: "string \<Rightarrow> string" where
  "TrimRight s = (if trailingSpace s = 0 then s else TrimRight (take (length s - trailingSpace s) s))"
  by pat_completeness auto

definition TrimSpace :: "string \<Rightarrow> string" where
  "TrimSpace s = TrimRight (TrimLeft s)"

text \<open>
  \<open>strings.Split(s, sep)\<close> for a separator of one byte (the service splits at \<open>$\<close> only):
  the pieces between the separators, one more than there are separators, so never an
  empty list.
\<close>

fun Split :: "string \<Rightarrow> char \<Rightarrow> string list" where
  "Split [] sep = [[]]"
| "Split (c # cs) sep =
     (if c = sep then [] # Split cs sep
      else (case Split cs sep of [] \<Rightarrow> [[c]] | p # ps \<Rightarrow> (c # p) # ps))"

text \<open>\<open>strings.Join(elems, sep)\<close>.\<close>

fun Join :: "string list \<Rightarrow> string \<Rightarrow> string" where
  "Join [] sep = []"
| "Join [x] sep = x"
| "Join (x # y # ys) sep = x @ sep @ Join (y # ys) sep"

section \<open>The data model\<close>

text \<open>
  The custom resource (package \<open>v1alpha1\<close>) with the fields the service reads. The name
  of a chart is \<open>chart_Name\<close>, since a dashboard and a runtime have a \<open>Name\<close> too.
  \<open>UnitScale\<close> is a \<open>float64\<close> in Go and a real number here: the service only asks
  whether it is zero and hands it on.
\<close>

record MonitoringDashboardChart =
  chart_Name :: string
  UnitScale :: real
  GroupLabels :: "string list"
  SortLabel :: string
  SortLabelParseAs :: string

record MonitoringDashboardItem =
  Include :: string
  Chart :: MonitoringDashboardChart

record MonitoringDashboardSpec =
  Title :: string
  Runtime :: string
  DiscoverOn :: string
  Items :: "MonitoringDashboardItem list"

record MonitoringDashboard =
  Name :: string
  Spec :: MonitoringDashboardSpec

datatype error =
    CannotInitializeKubernetes
  | CannotInitializePrometheus
  | NotFound string string
  | BackendUnavailable string
  | CircularDependency string "string set"
  | MetricsUnavailable
  | IndexOutOfRange

text \<open>
  Modelled from the spec: the cluster API client (\<open>kubernetes.ClientInterface\<close>), which
  is not among the sources. The spec has it read one template of a namespace by name, or
  report that there is none, and list the templates of a namespace, and has a query fail
  when the backend is unavailable. It is a finite table of the stored dashboards, each
  with its namespace, and the namespaces whose queries fail. Its \<open>GetDashboard\<close> (here
  \<open>client_GetDashboard\<close>: the service has a \<open>GetDashboard\<close> of its own) finds the resource of
  that name in that namespace; its \<open>GetDashboards\<close> lists a namespace. Each call hands out a
  copy: what the resolver changes in a dashboard it loaded is not seen by a later load.
\<close>

record ClientInterface =
  resources :: "(string \<times> MonitoringDashboard) list"
  unavailable :: "string list"

definition client_GetDashboard :: "ClientInterface \<Rightarrow> string \<Rightarrow> string \<Rightarrow> error + MonitoringDashboard" where
  "client_GetDashboard client namespace name =
     (if namespace \<in> set (unavailable client) then Inl (BackendUnavailable namespace)
      else (case find (\<lambda>(ns, d). ns = namespace \<and> Name d = name) (resources client) of
              None \<Rightarrow> Inl (NotFound namespace name)
            | Some (ns, d) \<Rightarrow> Inr d))"

definition client_GetDashboards :: "ClientInterface \<Rightarrow> string \<Rightarrow> error + MonitoringDashboard list" where
  "client_GetDashboards client namespace =
     (if namespace \<in> set (unavailable client) then Inl (BackendUnavailable namespace)
      else Inr (map snd (filter (\<lambda>(ns, d). ns = namespace) (resources client))))"

record Config =
  GlobalNamespace :: string
  NamespaceLabel :: string

text \<open>
  Modelled from the spec: the metrics backend client (\<open>prometheus.ClientInterface\<close>), not
  among the sources either. The spec has it list the metric names under a list of
  selectors, and has a query fail when the backend is unavailable. \<open>GetMetricsForLabels\<close>
  has the two results of the Go method the service calls: a list of names, and an error
  or none (\<open>nil\<close>). Which names come next to an error is left to the client.
\<close>

record PromClient =
  GetMetricsForLabels :: "string list \<Rightarrow> string list \<times> error option"

text \<open>
  The service. \<open>k8sClient\<close> and \<open>promClient\<close> are the memoised clients (\<open>None\<close> for
  Go's nil, before the first use); \<open>kubernetes_NewClient\<close> and \<open>prometheus_NewClient\<close>
  are what \<open>kubernetes.NewClient()\<close> and \<open>prometheus.NewClient(config.Prometheus)\<close>
  yield in this environment (\<open>None\<close> when they fail). They yield the same each time, so
  storing the result in the service changes no later answer, and \<open>k8s\<close> and \<open>prom\<close> are
  functions of the service.
\<close>

record DashboardsService =
  promClient :: "PromClient option"
  prometheus_NewClient :: "PromClient option"
  k8sClient :: "ClientInterface option"
  kubernetes_NewClient :: "ClientInterface option"
  config :: Config

definition prom :: "DashboardsService \<Rightarrow> error + PromClient" where
  "prom in' =
     (case promClient in' of
        Some client \<Rightarrow> Inr client
      | None \<Rightarrow> (case prometheus_NewClient in' of None \<Rightarrow> Inl CannotInitializePrometheus | Some client \<Rightarrow> Inr client))"

definition k8s :: "DashboardsService \<Rightarrow> error + ClientInterface" where
  "k8s in' =
     (case k8sClient in' of
        Some client \<Rightarrow> Inr client
      | None \<Rightarrow> (case kubernetes_NewClient in' of None \<Rightarrow> Inl CannotInitializeKubernetes | Some client \<Rightarrow> Inr client))"

definition k8sGetDashboard :: "DashboardsService \<Rightarrow> string \<Rightarrow> string \<Rightarrow> error + MonitoringDashboard" where
  "k8sGetDashboard in' namespace template =
     (case k8s in' of Inl err \<Rightarrow> Inl err | Inr client \<Rightarrow> client_GetDashboard client namespace template)"

definition k8sGetDashboards :: "DashboardsService \<Rightarrow> string \<Rightarrow> error + MonitoringDashboard list" where
  "k8sGetDashboards in' namespace =
     (case k8s in' of Inl err \<Rightarrow> Inl err | Inr client \<Rightarrow> client_GetDashboards client namespace)"

section \<open>The template resolver\<close>

definition loadRawDashboardResource :: "DashboardsService \<Rightarrow> string \<Rightarrow> string \<Rightarrow> error + MonitoringDashboard" where
  "loadRawDashboardResource in' namespace template =
     (case k8sGetDashboard in' namespace template of
        Inr dashboard \<Rightarrow> Inr dashboard
      | Inl err \<Rightarrow>
          if GlobalNamespace (config in') \<noteq> []
          then (case k8sGetDashboard in' (GlobalNamespace (config in')) template of
                  Inl err' \<Rightarrow> Inl err'
                | Inr dashboard \<Rightarrow> Inr dashboard)
          else Inl err)"

text \<open>
  The items a reference splices in, the inner loop of \<open>resolveReferences\<close>: with a chart
  name (\<open>parts\<close> has a second piece) the first item of that chart name and then
  \<open>break\<close>, otherwise every item.
\<close>

fun composedItems :: "string list \<Rightarrow> MonitoringDashboardItem list \<Rightarrow> MonitoringDashboardItem list" where
  "composedItems parts [] = []"
| "composedItems parts (item2 # items) =
     (case parts of
        p0 # p1 # ps \<Rightarrow>
          if chart_Name (Chart item2) = p1 then [item2] else composedItems parts items
      | _ \<Rightarrow> item2 # composedItems parts items)"

text \<open>The names under which a service can load anything: the bound of the recursion.\<close>

definition stored :: "DashboardsService \<Rightarrow> string set" where
  "stored in' = (case k8s in' of Inl err \<Rightarrow> {} | Inr client \<Rightarrow> Name ` snd ` set (resources client))"

text \<open>
  \<open>loaded\<close> is Go's \<open>map[string]bool\<close> that only ever holds \<open>true\<close>: a set of names. The Go
  functions share one map and write to it; here each takes the set and returns the set as
  it has become, next to its result. \<open>resolveItems\<close> is the loop of
  \<open>resolveReferences\<close> over the items left, with \<open>resolved\<close> as built so far.
\<close>

function
  loadAndResolveDashboardResource ::
    "DashboardsService \<Rightarrow> string \<Rightarrow> string \<Rightarrow> string set \<Rightarrow> error + (MonitoringDashboard \<times> string set)"
and resolveReferences ::
    "DashboardsService \<Rightarrow> string \<Rightarrow> MonitoringDashboard \<Rightarrow> string set \<Rightarrow> error + (MonitoringDashboard \<times> string set)"
and resolveItems ::
    "DashboardsService \<Rightarrow> string \<Rightarrow> MonitoringDashboardItem list \<Rightarrow> MonitoringDashboardItem list \<Rightarrow> string set
      \<Rightarrow> error + (MonitoringDashboardItem list \<times> string set)"
where
  "loadAndResolveDashboardResource in' namespace template loaded =
     (if template \<in> loaded then Inl (CircularDependency template loaded)
      else (case loadRawDashboardResource in' namespace template of
              Inl err \<Rightarrow> Inl err
            | Inr dashboard \<Rightarrow> resolveReferences in' namespace dashboard (insert template loaded)))"
| "resolveReferences in' namespace dashboard loaded =
     (case resolveItems in' namespace (Items (Spec dashboard)) [] loaded of
        Inl err \<Rightarrow> Inl err
      | Inr (resolved, loaded') \<Rightarrow>
          Inr (dashboard\<lparr>Spec := (Spec dashboard)\<lparr>Items := resolved\<rparr>\<rparr>, loaded'))"
| "resolveItems in' namespace [] resolved loaded = Inr (resolved, loaded)"
| "resolveItems in' namespace (item # items) resolved loaded =
     (let reference = TrimSpace (Include item) in
      if reference \<noteq> [] then
        (case Split reference (CHR ''$'') of
           [] \<Rightarrow> Inl IndexOutOfRange
         | dashboardRefName # chart \<Rightarrow>
             (case loadAndResolveDashboardResource in' namespace dashboardRefName loaded of
                Inl err \<Rightarrow> Inl err
              | Inr (composedDashboard, loaded') \<Rightarrow>
                  resolveItems in' namespace items
                    (resolved @ composedItems (dashboardRefName # chart) (Items (Spec composedDashboard)))
                    loaded'))
      else resolveItems in' namespace items (resolved @ [item]) loaded)"
  by pat_completeness auto

section \<open>The label selector and the grouping of a chart's query\<close>

text \<open>
  \<open>labelsFilters\<close> is a Go map, and \<open>range\<close> visits it in an order Go leaves open: the
  model takes the filters as the list of pairs in the order this call visits them.
\<close>

definition defaultNamespaceLabel :: string where
  "defaultNamespaceLabel = ''namespace''"

definition buildLabels :: "DashboardsService \<Rightarrow> string \<Rightarrow> (string \<times> string) list \<Rightarrow> string" where
  "buildLabels in' namespace labelsFilters =
     (let namespaceLabel =
            (if NamespaceLabel (config in') = [] then defaultNamespaceLabel
             else NamespaceLabel (config in'));
          labels = [CHR ''{''] @ namespaceLabel @ [CHR ''='', CHR 0x22] @ namespace @ [CHR 0x22];
          labels = fold (\<lambda>(k, v) labels. labels @ [CHR '',''] @ k @ [CHR ''='', CHR 0x22] @ v @ [CHR 0x22])
                     labelsFilters labels
      in labels @ [CHR ''}''])"

record DashboardQuery =
  Namespace :: string
  LabelsFilters :: "(string \<times> string) list"
  ByLabels :: "string list"

record ConversionParams =
  Scale :: real
  conv_SortLabel :: string
  conv_SortLabelParseAs :: string
  RemoveSortLabel :: bool

text \<open>The search for the sort label among the grouping labels, with its \<open>break\<close>.\<close>

fun sortLabelPresent :: "string list \<Rightarrow> string \<Rightarrow> bool" where
  "sortLabelPresent [] sortLabel = False"
| "sortLabelPresent (lbl # byLabels) sortLabel =
     (if lbl = sortLabel then True else sortLabelPresent byLabels sortLabel)"

text \<open>
  What one chart's worker of \<open>GetDashboard\<close> computes before it queries the backend: the
  \<open>grouping\<close> string of its queries and the conversion parameters of its fills.
\<close>

definition chartQuery :: "DashboardQuery \<Rightarrow> MonitoringDashboardChart \<Rightarrow> string \<times> ConversionParams" where
  "chartQuery params chart =
     (let conversionParams =
            \<lparr>Scale = (if UnitScale chart \<noteq> 0 then UnitScale chart else 1),
             conv_SortLabel = SortLabel chart,
             conv_SortLabelParseAs = SortLabelParseAs chart,
             RemoveSortLabel = False\<rparr>;
          byLabels = GroupLabels chart @ ByLabels params;
          (byLabels, conversionParams) =
            (if length (SortLabel chart) > 0
             then (if \<not> sortLabelPresent byLabels (SortLabel chart)
                   then (byLabels @ [SortLabel chart], conversionParams\<lparr>RemoveSortLabel := True\<rparr>)
                   else (byLabels, conversionParams))
             else (byLabels, conversionParams))
      in (Join byLabels '','', conversionParams))"

text \<open>
  \<open>GetDashboard\<close> up to what it sends: the selector of the queries and, chart by chart in
  the order of the resolved items, the grouping and the conversion parameters. The
  queries themselves and the filling of the charts from their answers are the backend's
  and package \<open>model\<close>'s.
\<close>

definition GetDashboard ::
    "DashboardsService \<Rightarrow> DashboardQuery \<Rightarrow> string \<Rightarrow> error + (string \<times> (string \<times> ConversionParams) list)" where
  "GetDashboard in' params template =
     (case prom in' of
        Inl err \<Rightarrow> Inl err
      | Inr client \<Rightarrow>
          (case loadAndResolveDashboardResource in' (Namespace params) template {} of
             Inl err \<Rightarrow> Inl err
           | Inr (dashboard, loaded) \<Rightarrow>
               Inr (buildLabels in' (Namespace params) (LabelsFilters params),
                    map (\<lambda>item. chartQuery params (Chart item)) (Items (Spec dashboard)))))"

text \<open>
  Modelled from the spec: the conversion of a series' labels in package \<open>model\<close>, which is
  not among the sources. The spec has the sort label, when it was added to the grouping
  only for sorting, stripped from the final series after conversion: the label set of a
  converted series is the backend's without the sort label when \<open>RemoveSortLabel\<close> is set.
\<close>

definition convertLabelSet :: "ConversionParams \<Rightarrow> (string \<times> string) list \<Rightarrow> (string \<times> string) list" where
  "convertLabelSet conversionParams labelSet =
     filter (\<lambda>(k, v). \<not> (RemoveSortLabel conversionParams \<and> k = conv_SortLabel conversionParams)) labelSet"

section \<open>Discovery\<close>

record DashboardRef =
  Template :: string
  ref_Title :: string

record Runtime =
  rt_Name :: string
  DashboardRefs :: "DashboardRef list"

text \<open>
  A Go map is an association list with one entry per key (\<open>AList.update\<close> writes, \<open>map_of\<close>
  reads). The order in which \<open>range\<close> visits a map is open: each loop over a map the
  service has built takes a ranking of the keys and visits the entries by rising rank.
  Every order of the entries is the order of some ranking.
\<close>

definition rangeOrder :: "(string \<Rightarrow> nat) \<Rightarrow> (string \<times> 'v) list \<Rightarrow> (string \<times> 'v) list" where
  "rangeOrder rank m = sort_key (\<lambda>(k, v). rank k) m"

definition loadRawDashboardResources ::
    "DashboardsService \<Rightarrow> string \<Rightarrow> error + (string \<times> MonitoringDashboard) list" where
  "loadRawDashboardResources in' namespace =
     (case (if GlobalNamespace (config in') \<noteq> []
            then (case k8sGetDashboards in' (GlobalNamespace (config in')) of
                    Inl err \<Rightarrow> Inl err
                  | Inr dashboards \<Rightarrow> Inr (fold (\<lambda>d all. AList.update (Name d) d all) dashboards []))
            else Inr []) of
        Inl err \<Rightarrow> Inl err
      | Inr all \<Rightarrow>
          if namespace \<noteq> GlobalNamespace (config in')
          then (case k8sGetDashboards in' namespace of
                  Inl err \<Rightarrow> Inl err
                | Inr dashboards \<Rightarrow> Inr (fold (\<lambda>d all. AList.update (Name d) d all) dashboards all))
          else Inr all)"

definition fetchMetricNames :: "DashboardsService \<Rightarrow> string \<Rightarrow> (string \<times> string) list \<Rightarrow> string list" where
  "fetchMetricNames in' namespace labelsFilters =
     (case prom in' of
        Inl err \<Rightarrow> []
      | Inr client \<Rightarrow>
          (case GetMetricsForLabels client [buildLabels in' namespace labelsFilters] of
             (metrics, err) \<Rightarrow> metrics))"

text \<open>The loop of \<open>addDashboardToRuntimes\<close>: the runtimes after it, and \<open>found\<close>.\<close>

fun appendDashboardRef :: "string \<Rightarrow> DashboardRef \<Rightarrow> Runtime list \<Rightarrow> Runtime list \<times> bool" where
  "appendDashboardRef runtime ref [] = ([], False)"
| "appendDashboardRef runtime ref (rtObj # runtimes) =
     (if rt_Name rtObj = runtime
      then (rtObj\<lparr>DashboardRefs := DashboardRefs rtObj @ [ref]\<rparr> # runtimes, True)
      else (case appendDashboardRef runtime ref runtimes of
              (runtimes', found) \<Rightarrow> (rtObj # runtimes', found)))"

definition addDashboardToRuntimes :: "MonitoringDashboard \<Rightarrow> Runtime list \<Rightarrow> Runtime list" where
  "addDashboardToRuntimes dashboard runtimes =
     (let runtime = Runtime (Spec dashboard);
          ref = \<lparr>Template = Name dashboard, ref_Title = Title (Spec dashboard)\<rparr>
      in (case appendDashboardRef runtime ref runtimes of
            (runtimes', found) \<Rightarrow>
              if \<not> found then runtimes' @ [\<lparr>rt_Name = runtime, DashboardRefs = [ref]\<rparr>]
              else runtimes'))"

type_synonym runtimesMap = "(string \<times> MonitoringDashboard option) list"

text \<open>The loop over the items of a matching dashboard: \<open>runtimesMap[item.Include] = nil\<close>.\<close>

fun markIncluded :: "MonitoringDashboardItem list \<Rightarrow> runtimesMap \<Rightarrow> runtimesMap" where
  "markIncluded [] runtimesMap = runtimesMap"
| "markIncluded (item # items) runtimesMap =
     markIncluded items
       (if Include item \<noteq> [] then AList.update (Include item) None runtimesMap else runtimesMap)"

text \<open>The loop over the metrics for one dashboard, left at the first match.\<close>

fun matchMetrics :: "MonitoringDashboard \<Rightarrow> string \<Rightarrow> string list \<Rightarrow> runtimesMap \<Rightarrow> runtimesMap" where
  "matchMetrics dashboard matchReference [] runtimesMap = runtimesMap"
| "matchMetrics dashboard matchReference (metric # metrics) runtimesMap =
     (if matchReference = TrimSpace metric
      then markIncluded (Items (Spec dashboard))
             (if map_of runtimesMap (Name dashboard) = None
              then AList.update (Name dashboard) (Some dashboard) runtimesMap
              else runtimesMap)
      else matchMetrics dashboard matchReference metrics runtimesMap)"

definition matchDashboard :: "string list \<Rightarrow> MonitoringDashboard \<Rightarrow> runtimesMap \<Rightarrow> runtimesMap" where
  "matchDashboard metrics dashboard runtimesMap =
     (let matchReference = TrimSpace (DiscoverOn (Spec dashboard))
      in if matchReference \<noteq> [] then matchMetrics dashboard matchReference metrics runtimesMap
         else runtimesMap)"

text \<open>
  \<open>sort.Slice\<close> with \<open>runtimes[i].Name < runtimes[j].Name\<close>, the order of the bytes. It is
  not a stable sort, but no two of the runtimes it gets here have one name (lemma
  \<open>runtimes_distinct\<close> below), and then there is one sorted list only.
\<close>

definition runDiscoveryMatcher ::
    "(string \<Rightarrow> nat) \<Rightarrow> (string \<Rightarrow> nat) \<Rightarrow> string list \<Rightarrow> (string \<times> MonitoringDashboard) list \<Rightarrow> Runtime list" where
  "runDiscoveryMatcher rank1 rank2 metrics allDashboards =
     (let runtimesMap = fold (\<lambda>(key, d). matchDashboard metrics d) (rangeOrder rank1 allDashboards) [];
          runtimes = fold (\<lambda>(key, dashboard) runtimes.
                             case dashboard of None \<Rightarrow> runtimes
                             | Some dashboard \<Rightarrow> addDashboardToRuntimes dashboard runtimes)
                       (rangeOrder rank2 runtimesMap) []
      in sort_key rt_Name runtimes)"

text \<open>
  \<open>DiscoverDashboards\<close> fetches the metric names in a goroutine of its own while it loads
  the dashboards, and waits for it before it matches; neither reads what the other
  writes, so the model runs them one after the other. Its result type has no error.
\<close>

definition DiscoverDashboards ::
    "(string \<Rightarrow> nat) \<Rightarrow> (string \<Rightarrow> nat) \<Rightarrow> DashboardsService \<Rightarrow> string \<Rightarrow> (string \<times> string) list \<Rightarrow> Runtime list" where
  "DiscoverDashboards rank1 rank2 in' namespace labelsFilters =
     (let metrics = fetchMetricNames in' namespace labelsFilters
      in (case loadRawDashboardResources in' namespace of
            Inl err \<Rightarrow> []
          | Inr allDashboards \<Rightarrow> runDiscoveryMatcher rank1 rank2 metrics allDashboards))"

text \<open>
  For the proofs: what the matcher computes, apart from the order of the visits. A
  dashboard matches when its trimmed \<open>DiscoverOn\<close> is not empty and is the trimmed name of
  a reported metric; it marks the \<open>Include\<close> strings of its items that are not empty; it is
  reported when it matches and no matching dashboard marks its name. \<open>refOf\<close> is the
  reference \<open>addDashboardToRuntimes\<close> builds, \<open>refsOf\<close> the references of the groups of
  one name.
\<close>

definition matched :: "string list \<Rightarrow> MonitoringDashboard \<Rightarrow> bool" where
  "matched metrics d \<longleftrightarrow>
     TrimSpace (DiscoverOn (Spec d)) \<noteq> [] \<and> TrimSpace (DiscoverOn (Spec d)) \<in> TrimSpace ` set metrics"

definition marks :: "MonitoringDashboard \<Rightarrow> string set" where
  "marks d = set (filter (\<lambda>key. key \<noteq> []) (map Include (Items (Spec d))))"

definition reported :: "string list \<Rightarrow> (string \<times> MonitoringDashboard) list \<Rightarrow> MonitoringDashboard \<Rightarrow> bool" where
  "reported metrics allDashboards d \<longleftrightarrow>
     d \<in> snd ` set allDashboards \<and> matched metrics d
     \<and> (\<forall>d' \<in> snd ` set allDashboards. matched metrics d' \<longrightarrow> Name d \<notin> marks d')"

definition refOf :: "MonitoringDashboard \<Rightarrow> DashboardRef" where
  "refOf d = \<lparr>Template = Name d, ref_Title = Title (Spec d)\<rparr>"

definition refsOf :: "Runtime list \<Rightarrow> string \<Rightarrow> DashboardRef set" where
  "refsOf runtimes n = (\<Union>r \<in> set runtimes. if rt_Name r = n then set (DashboardRefs r) else {})"

section \<open>The Include graph of a cluster\<close>







text \<open>
  For the proofs: the graph of a successor function, the names reachable from a set of
  names, and what a successful resolution of the roots \<open>rs\<close> from \<open>L\<close> to \<open>L'\<close> tells about
  the graph: \<open>L'\<close> is \<open>L\<close> and all that the roots reach, none of it was in \<open>L\<close>, none of it lies
  on a cycle, and no name is referred to twice (the roots differ, no two references from
  reached names go to one name, and none goes to a root).
\<close>

definition graphOf :: "('a \<Rightarrow> 'a list) \<Rightarrow> ('a \<times> 'a) set" where
  "graphOf inc = {(t, r). r \<in> set (inc t)}"

definition reach :: "('a \<Rightarrow> 'a list) \<Rightarrow> 'a set \<Rightarrow> 'a set" where
  "reach inc A = (graphOf inc)\<^sup>* `` A"

definition forest :: "('a \<Rightarrow> 'a list) \<Rightarrow> 'a list \<Rightarrow> 'a set \<Rightarrow> 'a set \<Rightarrow> bool" where
  "forest inc rs L L' \<longleftrightarrow>
     L' = L \<union> reach inc (set rs) \<and> reach inc (set rs) \<inter> L = {}
     \<and> (\<forall>n \<in> reach inc (set rs). (n, n) \<notin> (graphOf inc)\<^sup>+)
     \<and> distinct rs
     \<and> (\<forall>n1 \<in> reach inc (set rs). \<forall>n2 \<in> reach inc (set rs). \<forall>k1 k2.
           k1 < length (inc n1) \<and> k2 < length (inc n2) \<and> inc n1 ! k1 = inc n2 ! k2 \<longrightarrow> n1 = n2 \<and> k1 = k2)
     \<and> (\<forall>n \<in> reach inc (set rs). set (inc n) \<inter> set rs = {})"



text \<open>
  For the proofs: what the loop of \<open>resolveReferences\<close> puts in the place of one item.
\<close>

definition expansion :: "DashboardsService \<Rightarrow> string \<Rightarrow> MonitoringDashboardItem \<Rightarrow> MonitoringDashboardItem list \<Rightarrow> bool" where
  "expansion i ns item spliced \<longleftrightarrow>
     (if TrimSpace (Include item) = [] then spliced = [item]
      else (\<exists>n ch c L1 L2. Split (TrimSpace (Include item)) CHR ''$'' = n # ch
              \<and> loadAndResolveDashboardResource i ns n L1 = Inr (c, L2)
              \<and> spliced = composedItems (n # ch) (Items (Spec c))))"

section \<open>Examples\<close>

definition chartNamed :: "string \<Rightarrow> MonitoringDashboardChart" where
  "chartNamed n = \<lparr>chart_Name = n, UnitScale = 0, GroupLabels = [], SortLabel = [], SortLabelParseAs = []\<rparr>"

definition inlineItem :: "string \<Rightarrow> MonitoringDashboardItem" where
  "inlineItem n = \<lparr>Include = [], Chart = chartNamed n\<rparr>"

definition includeItem :: "string \<Rightarrow> MonitoringDashboardItem" where
  "includeItem r = \<lparr>Include = r, Chart = chartNamed []\<rparr>"

definition dashboardOf :: "string \<Rightarrow> string \<Rightarrow> string \<Rightarrow> MonitoringDashboardItem list \<Rightarrow> MonitoringDashboard" where
  "dashboardOf n rt m its = \<lparr>Name = n, Spec = \<lparr>Title = n, Runtime = rt, DiscoverOn = m, Items = its\<rparr>\<rparr>"

definition templateOf :: "string \<Rightarrow> MonitoringDashboardItem list \<Rightarrow> MonitoringDashboard" where
  "templateOf n its = dashboardOf n [] [] its"

definition serviceWith ::
    "string \<Rightarrow> (string \<times> MonitoringDashboard) list \<Rightarrow> string list \<Rightarrow> DashboardsService" where
  "serviceWith global rs down =
     \<lparr>promClient = None, prometheus_NewClient = None,
      k8sClient = None, kubernetes_NewClient = Some \<lparr>resources = rs, unavailable = down\<rparr>,
      config = \<lparr>GlobalNamespace = global, NamespaceLabel = []\<rparr>\<rparr>"

definition serviceOf :: "string \<Rightarrow> (string \<times> MonitoringDashboard) list \<Rightarrow> DashboardsService" where
  "serviceOf global rs = serviceWith global rs []"

definition exampleTiers :: DashboardsService where
  "exampleTiers = serviceWith ''istio-system''
     [(''ns1'', templateOf ''A'' [inlineItem ''own'']),
      (''istio-system'', templateOf ''A'' [inlineItem ''shared'']),
      (''istio-system'', templateOf ''G'' [inlineItem ''g''])]
     [''locked'']"

definition versionChart :: MonitoringDashboardChart where
  "versionChart = (chartNamed ''latency'')\<lparr>GroupLabels := [''app''], SortLabel := ''version''\<rparr>"

definition exampleDashboards :: "(string \<times> MonitoringDashboard) list" where
  "exampleDashboards =
     [(''vertx'', dashboardOf ''vertx'' ''Vert.x'' ''vertx_metric'' [inlineItem ''c1'']),
      (''go'', dashboardOf ''go'' ''Go'' ''go_metric'' [inlineItem ''c2'']),
      (''vertx-jvm'', dashboardOf ''vertx-jvm'' ''Vert.x'' ''jvm_metric'' [inlineItem ''c3''])]"


definition vertxGroup :: Runtime where
  "vertxGroup = \<lparr>rt_Name = ''Vert.x'', DashboardRefs = [\<lparr>Template = ''vertx'', ref_Title = ''vertx''\<rparr>]\<rparr>"

definition parentChild :: "string \<Rightarrow> (string \<times> MonitoringDashboard) list" where
  "parentChild reference =
     [(''Parent'', dashboardOf ''Parent'' ''rt'' ''m1'' [includeItem reference]),
      (''Child'', dashboardOf ''Child'' ''rt'' ''m1'' [inlineItem ''ChartX'', inlineItem ''ChartY''])]"

definition noCluster :: DashboardsService where
  "noCluster = (serviceOf [] [])\<lparr>kubernetes_NewClient := None\<rparr>"

definition discoveryCluster :: "(string list \<Rightarrow> string list \<times> error option) \<Rightarrow> DashboardsService" where
  "discoveryCluster answer =
     (serviceOf ''istio-system''
        [(''istio-system'', dashboardOf ''vertx'' ''Vert.x'' ''vertx_metric'' [inlineItem ''shared'']),
         (''istio-system'', dashboardOf ''go'' ''Go'' ''go_metric'' [inlineItem ''c2'']),
         (''ns1'', dashboardOf ''vertx'' ''Vert.x'' ''vertx_metric'' [inlineItem ''own''])])
       \<lparr>promClient := Some \<lparr>GetMetricsForLabels = answer\<rparr>\<rparr>"





definition wholeInclude :: DashboardsService where
  "wholeInclude = serviceOf []
     [(''ns1'', templateOf ''A'' [inlineItem ''a1'', includeItem ''B'', inlineItem ''a3'']),
      (''ns1'', templateOf ''B'' [inlineItem ''b1'', inlineItem ''b2''])]"

definition wholeInclude4 :: DashboardsService where
  "wholeInclude4 = serviceOf []
     [(''ns1'', templateOf ''A'' [inlineItem ''a1'', includeItem ''B'', inlineItem ''a2'', inlineItem ''a3'']),
      (''ns1'', templateOf ''B'' [inlineItem ''b1'', inlineItem ''b2''])]"

definition chartX2 :: MonitoringDashboardItem where
  "chartX2 = \<lparr>Include = [], Chart = (chartNamed ''ChartX'')\<lparr>GroupLabels := [''second'']\<rparr>\<rparr>"

definition scopedInclude :: DashboardsService where
  "scopedInclude = serviceOf []
     [(''ns1'', templateOf ''A'' [inlineItem ''a1'', includeItem ''B$ChartX'', inlineItem ''a3'']),
      (''ns1'', templateOf ''B'' [inlineItem ''ChartX'', inlineItem ''ChartY'', chartX2])]"

section \<open>Termination\<close>

text \<open>Trimming: a white space rune that is found has a byte at least, and is cut off.\<close>

lemma White_Space_nonempty: "e \<in> set White_Space \<Longrightarrow> e \<noteq> []"
  by (auto simp: White_Space_def)

lemma leadingSpace_le: "leadingSpace s \<le> length s"
  by (auto simp: leadingSpace_def prefix_length_le split: option.splits dest!: find_Some_iff[THEN iffD1])

lemma trailingSpace_le: "trailingSpace s \<le> length s"
  by (auto simp: trailingSpace_def suffix_length_le split: option.splits dest!: find_Some_iff[THEN iffD1])

termination TrimLeft
proof (relation "measure length")
  fix s :: string
  assume "leadingSpace s \<noteq> 0"
  moreover have "leadingSpace s \<le> length s" by (rule leadingSpace_le)
  ultimately show "(drop (leadingSpace s) s, s) \<in> measure length" by simp
qed simp

termination TrimRight
proof (relation "measure length")
  fix s :: string
  assume "trailingSpace s \<noteq> 0"
  moreover have "trailingSpace s \<le> length s" by (rule trailingSpace_le)
  ultimately show "(take (length s - trailingSpace s) s, s) \<in> measure length" by simp
qed simp

declare TrimLeft.simps [simp del] TrimRight.simps [simp del]

lemma client_GetDashboard_Name: "client_GetDashboard client ns t = Inr d \<Longrightarrow> Name d = t \<and> (ns, d) \<in> set (resources client)"
  by (auto simp: client_GetDashboard_def find_Some_iff split: option.splits if_splits) (metis nth_mem)

lemma k8sGetDashboard_stored: "k8sGetDashboard in' ns t = Inr d \<Longrightarrow> t \<in> stored in'"
  by (auto simp: k8sGetDashboard_def stored_def split: sum.splits dest!: client_GetDashboard_Name intro!: image_eqI)

lemma loadRaw_stored: "loadRawDashboardResource in' ns t = Inr d \<Longrightarrow> t \<in> stored in'"
  by (auto simp: loadRawDashboardResource_def split: sum.splits if_splits dest: k8sGetDashboard_stored)

lemma finite_stored: "finite (stored in')"
  by (auto simp: stored_def split: sum.splits)

text \<open>
  Termination. A call that loads a template adds a stored name to \<open>loaded\<close> that was not
  in it, and no call takes a name out: the number of stored names outside \<open>loaded\<close>
  bounds the depth, the items left bound the loop.
\<close>

lemma loaded_grows_dom:
  "loadAndResolveDashboardResource_resolveReferences_resolveItems_dom (Inl (i, ns, t, L)) \<Longrightarrow>
     loadAndResolveDashboardResource i ns t L = Inr (d, L') \<Longrightarrow> L \<subseteq> L'"
  "loadAndResolveDashboardResource_resolveReferences_resolveItems_dom (Inr (Inl (i, ns, d0, L))) \<Longrightarrow>
     resolveReferences i ns d0 L = Inr (d, L') \<Longrightarrow> L \<subseteq> L'"
  "loadAndResolveDashboardResource_resolveReferences_resolveItems_dom (Inr (Inr (i, ns, items, res, L))) \<Longrightarrow>
     resolveItems i ns items res L = Inr (r, L') \<Longrightarrow> L \<subseteq> L'"
proof (induction i ns t L and i ns d0 L and i ns items res L arbitrary: d L' and d L' and r L'
    rule: loadAndResolveDashboardResource_resolveReferences_resolveItems.pinduct)
  case (1 in' namespace template loaded)
  then show ?case
    by (auto simp: loadAndResolveDashboardResource.psimps split: if_splits sum.splits)
next
  case (2 in' namespace dashboard loaded)
  then show ?case
    by (auto simp: resolveReferences.psimps split: sum.splits prod.splits)
next
  case (3 in' namespace resolved loaded)
  then show ?case by (simp add: resolveItems.psimps)
next
  case (4 in' namespace item items resolved loaded)
  show ?case
  proof (cases "TrimSpace (Include item) = []")
    case True
    with 4 show ?thesis by (simp add: resolveItems.psimps)
  next
    case False
    with 4(1,5) obtain n ch c L1 where
      sp: "Split (TrimSpace (Include item)) CHR ''$'' = n # ch" and
      lr: "loadAndResolveDashboardResource in' namespace n loaded = Inr (c, L1)" and
      ri: "resolveItems in' namespace items (resolved @ composedItems (n # ch) (Items (Spec c))) L1 = Inr (r, L')"
      by (auto simp: resolveItems.psimps Let_def split: list.splits sum.splits prod.splits)
    from 4(2)[OF refl False sp lr] have "loaded \<subseteq> L1" .
    moreover from 4(3)[OF refl False sp lr refl ri] have "L1 \<subseteq> L'" .
    ultimately show ?thesis by simp
  qed
qed

lemma card_stored_insert:
  assumes "t \<notin> L" "t \<in> stored i"
  shows "card (stored i - insert t L) < card (stored i - L)"
proof (rule psubset_card_mono)
  show "finite (stored i - L)" by (simp add: finite_stored)
  show "stored i - insert t L \<subset> stored i - L" using assms by auto
qed

lemma card_stored_mono:
  assumes "L \<subseteq> L'"
  shows "card (stored i - L') \<le> card (stored i - L)"
  by (rule card_mono) (use assms in \<open>auto simp: finite_stored\<close>)

termination loadAndResolveDashboardResource
proof (relation "inv_image (measure (\<lambda>x. x) <*lex*> measure (\<lambda>x. x)) (\<lambda>x. case x of
      Inl (i, ns, t, L) \<Rightarrow> (card (stored i - L), 0)
    | Inr (Inl (i, ns, d, L)) \<Rightarrow> (card (stored i - L), length (Items (Spec d)) + 2)
    | Inr (Inr (i, ns, items, res, L)) \<Rightarrow> (card (stored i - L), length items + 1))", goal_cases)
  case 1
  show ?case by (intro wf_inv_image wf_lex_prod wf_measure)
next
  case (2 in' namespace template loaded b)
  then have "card (stored in' - insert template loaded) < card (stored in' - loaded)"
    by (intro card_stored_insert loadRaw_stored)
  then show ?case
    by (simp only: in_inv_image in_lex_prod in_measure sum.case prod.case simp_thms)
next
  case (3 in' namespace dashboard loaded)
  show ?case by simp
next
  case (4 in' namespace item items resolved loaded x x21 x22)
  show ?case by simp
next
  case (5 in' namespace item items resolved loaded x x21 x22 b xa y)
  from 5(4,5,6) have "loaded \<subseteq> y" by (auto dest: loaded_grows_dom(1))
  then have "card (stored in' - y) \<le> card (stored in' - loaded)" by (rule card_stored_mono)
  then show ?case by auto
next
  case (6 in' namespace item items resolved loaded x)
  show ?case by simp
qed

section \<open>The two-tier lookup\<close>

text \<open>
  C2. For every namespace and template name the lookup tries the namespace first. When
  that load succeeds it is the result, so a template of both tiers resolves to the
  namespace's own. When it fails and a global namespace is configured, the result is
  what the load from the global namespace gives: its dashboard when it has one (a
  template of the global tier only still resolves), its error when it fails too (the
  error of the last attempt). With no global namespace the first error is the result.
\<close>

theorem loadRawDashboardResource_two_tier:
  "(k8sGetDashboard in' namespace template = Inr d \<longrightarrow>
      loadRawDashboardResource in' namespace template = Inr d)
   \<and> (k8sGetDashboard in' namespace template = Inl err \<and> GlobalNamespace (config in') \<noteq> [] \<longrightarrow>
      loadRawDashboardResource in' namespace template
        = k8sGetDashboard in' (GlobalNamespace (config in')) template)
   \<and> (k8sGetDashboard in' namespace template = Inl err \<and> GlobalNamespace (config in') = [] \<longrightarrow>
      loadRawDashboardResource in' namespace template = Inl err)"
  by (auto simp: loadRawDashboardResource_def split: sum.splits)

theorem loadRawDashboardResource_two_tier_witness:
  "k8sGetDashboard exampleTiers ''ns1'' ''A'' = Inr (templateOf ''A'' [inlineItem ''own''])
   \<and> k8sGetDashboard exampleTiers ''istio-system'' ''A'' = Inr (templateOf ''A'' [inlineItem ''shared''])
   \<and> loadRawDashboardResource exampleTiers ''ns1'' ''A'' = Inr (templateOf ''A'' [inlineItem ''own''])
   \<and> k8sGetDashboard exampleTiers ''ns1'' ''G'' = Inl (NotFound ''ns1'' ''G'')
   \<and> GlobalNamespace (config exampleTiers) \<noteq> []
   \<and> loadRawDashboardResource exampleTiers ''ns1'' ''G'' = Inr (templateOf ''G'' [inlineItem ''g''])
   \<and> k8sGetDashboard exampleTiers ''ns1'' ''X'' = Inl (NotFound ''ns1'' ''X'')
   \<and> loadRawDashboardResource exampleTiers ''ns1'' ''X'' = Inl (NotFound ''istio-system'' ''X'')
   \<and> k8sGetDashboard exampleTiers ''locked'' ''A'' = Inl (BackendUnavailable ''locked'')
   \<and> loadRawDashboardResource exampleTiers ''locked'' ''A'' = Inr (templateOf ''A'' [inlineItem ''shared''])
   \<and> GlobalNamespace (config (serviceOf [] [])) = []
   \<and> k8sGetDashboard (serviceOf [] []) ''ns1'' ''X'' = Inl (NotFound ''ns1'' ''X'')
   \<and> loadRawDashboardResource (serviceOf [] []) ''ns1'' ''X'' = Inl (NotFound ''ns1'' ''X'')"
proof -
  have l: "k8sGetDashboard exampleTiers ''locked'' ''A'' = Inl (BackendUnavailable ''locked'')"
    by code_simp
  have a: "k8sGetDashboard exampleTiers ''ns1'' ''A'' = Inr (templateOf ''A'' [inlineItem ''own''])"
    by code_simp
  have a': "k8sGetDashboard exampleTiers ''istio-system'' ''A'' = Inr (templateOf ''A'' [inlineItem ''shared''])"
    by code_simp
  have g: "k8sGetDashboard exampleTiers ''ns1'' ''G'' = Inl (NotFound ''ns1'' ''G'')"
    by code_simp
  have g': "k8sGetDashboard exampleTiers ''istio-system'' ''G'' = Inr (templateOf ''G'' [inlineItem ''g''])"
    by code_simp
  have x: "k8sGetDashboard exampleTiers ''ns1'' ''X'' = Inl (NotFound ''ns1'' ''X'')"
    by code_simp
  have x': "k8sGetDashboard exampleTiers ''istio-system'' ''X'' = Inl (NotFound ''istio-system'' ''X'')"
    by code_simp
  have y: "k8sGetDashboard (serviceOf [] []) ''ns1'' ''X'' = Inl (NotFound ''ns1'' ''X'')"
    by code_simp
  have gl: "GlobalNamespace (config exampleTiers) = ''istio-system''"
    by (simp add: exampleTiers_def serviceOf_def serviceWith_def)
  have gl0: "GlobalNamespace (config (serviceOf [] [])) = []"
    by (simp add: serviceOf_def serviceWith_def)
  note t = loadRawDashboardResource_two_tier
  from t[of exampleTiers "''ns1''" "''A''"] a
  have 1: "loadRawDashboardResource exampleTiers ''ns1'' ''A'' = Inr (templateOf ''A'' [inlineItem ''own''])"
    by simp
  from t[of exampleTiers "''ns1''" "''G''" _ "NotFound ''ns1'' ''G''"] g g' gl
  have 2: "loadRawDashboardResource exampleTiers ''ns1'' ''G'' = Inr (templateOf ''G'' [inlineItem ''g''])"
    by simp
  from t[of exampleTiers "''ns1''" "''X''" _ "NotFound ''ns1'' ''X''"] x x' gl
  have 3: "loadRawDashboardResource exampleTiers ''ns1'' ''X'' = Inl (NotFound ''istio-system'' ''X'')"
    by simp
  from t[of "serviceOf [] []" "''ns1''" "''X''" _ "NotFound ''ns1'' ''X''"] y gl0
  have 4: "loadRawDashboardResource (serviceOf [] []) ''ns1'' ''X'' = Inl (NotFound ''ns1'' ''X'')"
    by simp
  from t[of exampleTiers "''locked''" "''A''" _ "BackendUnavailable ''locked''"] l a' gl
  have 5: "loadRawDashboardResource exampleTiers ''locked'' ''A'' = Inr (templateOf ''A'' [inlineItem ''shared''])"
    by simp
  from a a' g x y l gl gl0 1 2 3 4 5 show ?thesis by simp
qed

section \<open>The label selector\<close>

lemma fold_labels:
  "fold (\<lambda>(k, v) labels. labels @ f k v) fs acc = acc @ concat (map (\<lambda>(k, v). f k v) fs)"
  by (induction fs arbitrary: acc) (auto split: prod.splits)

text \<open>
  C9. For every namespace and every list of label filters the selector is, between
  braces, the namespace label (the configured name, \<open>namespace\<close> when none is configured)
  set equal to the namespace, and then one \<open>,key="value"\<close> for each filter in the order
  the filters are visited. The namespace \<open>ns1\<close> with the filter \<open>app\<close> = \<open>foo\<close> and no
  configured label gives \<open>{namespace="ns1",app="foo"}\<close>.
\<close>

theorem buildLabels_selector:
  \<open>buildLabels in' namespace labelsFilters =
     ''{'' @ (if NamespaceLabel (config in') = [] then ''namespace'' else NamespaceLabel (config in'))
       @ ''="'' @ namespace @ ''"''
       @ concat (map (\<lambda>(k, v). '','' @ k @ ''="'' @ v @ ''"'') labelsFilters) @ ''}''
   \<and> buildLabels (serviceOf [] []) ''ns1'' [(''app'', ''foo'')] = ''{namespace="ns1",app="foo"}''\<close>
  by (simp add: buildLabels_def fold_labels defaultNamespaceLabel_def serviceOf_def serviceWith_def)

section \<open>The grouping of a chart's query\<close>

lemma sortLabelPresent_iff: "sortLabelPresent byLabels l \<longleftrightarrow> l \<in> set byLabels"
  by (induction byLabels) auto

lemma convertLabelSet_keys:
  "fst ` set (convertLabelSet cp labelSet)
     = (if RemoveSortLabel cp then fst ` set labelSet - {conv_SortLabel cp} else fst ` set labelSet)"
  by (auto simp: convertLabelSet_def intro!: image_eqI)

text \<open>
  C7. For every chart and every query, the grouping sent to the backend is the chart's
  group labels, then the caller's \<open>ByLabels\<close>, then the chart's sort label when the chart
  declares one and it is not among them, joined by commas; the conversion is flagged to
  remove the sort label exactly when it was appended, and then no converted series has
  a label of that name. A chart with sort label \<open>version\<close> and group labels \<open>app\<close>, with
  no \<open>version\<close> among the caller's labels, is queried with \<open>app\<close>, the caller's labels and
  \<open>version\<close> (with no caller's labels: \<open>app,version\<close>, in the witness), and its final
  series have no \<open>version\<close> label.
\<close>

theorem chartQuery_grouping:
  "fst (chartQuery params chart) =
      Join (GroupLabels chart @ ByLabels params @
             (if SortLabel chart \<noteq> [] \<and> SortLabel chart \<notin> set (GroupLabels chart @ ByLabels params)
              then [SortLabel chart] else [])) '',''
   \<and> RemoveSortLabel (snd (chartQuery params chart)) =
        (SortLabel chart \<noteq> [] \<and> SortLabel chart \<notin> set (GroupLabels chart @ ByLabels params))
   \<and> conv_SortLabel (snd (chartQuery params chart)) = SortLabel chart
   \<and> (SortLabel chart \<noteq> [] \<and> SortLabel chart \<notin> set (GroupLabels chart @ ByLabels params) \<longrightarrow>
        SortLabel chart \<notin> fst ` set (convertLabelSet (snd (chartQuery params chart)) labelSet))
   \<and> (GroupLabels chart = [''app''] \<and> SortLabel chart = ''version'' \<and> ''version'' \<notin> set (ByLabels params) \<longrightarrow>
        fst (chartQuery params chart) = Join ([''app''] @ ByLabels params @ [''version'']) '',''
        \<and> RemoveSortLabel (snd (chartQuery params chart))
        \<and> ''version'' \<notin> fst ` set (convertLabelSet (snd (chartQuery params chart)) labelSet))"
  by (auto simp: chartQuery_def sortLabelPresent_iff convertLabelSet_keys Let_def)

theorem chartQuery_grouping_witness:
  "GroupLabels versionChart = [''app''] \<and> SortLabel versionChart = ''version''
   \<and> ''version'' \<notin> set (ByLabels \<lparr>Namespace = ''ns1'', LabelsFilters = [], ByLabels = []\<rparr>)
   \<and> fst (chartQuery \<lparr>Namespace = ''ns1'', LabelsFilters = [], ByLabels = []\<rparr> versionChart) = ''app,version''
   \<and> RemoveSortLabel (snd (chartQuery \<lparr>Namespace = ''ns1'', LabelsFilters = [], ByLabels = []\<rparr> versionChart))
   \<and> convertLabelSet (snd (chartQuery \<lparr>Namespace = ''ns1'', LabelsFilters = [], ByLabels = []\<rparr> versionChart))
        [(''app'', ''foo''), (''version'', ''v1'')] = [(''app'', ''foo'')]
   \<and> ''version'' \<notin> fst ` set (convertLabelSet (snd (chartQuery \<lparr>Namespace = ''ns1'', LabelsFilters = [], ByLabels = []\<rparr> versionChart))
        [(''app'', ''foo''), (''version'', ''v1'')])"
proof -
  let ?q = "\<lparr>Namespace = ''ns1'', LabelsFilters = [], ByLabels = []\<rparr>"
  have h: "GroupLabels versionChart = [''app'']" "SortLabel versionChart = ''version''"
    "''version'' \<notin> set (ByLabels ?q)"
    by (simp_all add: versionChart_def chartNamed_def)
  from chartQuery_grouping[of ?q versionChart "[(''app'', ''foo''), (''version'', ''v1'')]"] h
  have "fst (chartQuery ?q versionChart) = ''app,version''"
    "RemoveSortLabel (snd (chartQuery ?q versionChart))"
    "''version'' \<notin> fst ` set (convertLabelSet (snd (chartQuery ?q versionChart)) [(''app'', ''foo''), (''version'', ''v1'')])"
    by simp_all
  moreover have "convertLabelSet (snd (chartQuery ?q versionChart)) [(''app'', ''foo''), (''version'', ''v1'')] = [(''app'', ''foo'')]"
    by (simp add: convertLabelSet_def chartQuery_def versionChart_def chartNamed_def)
  ultimately show ?thesis using h by simp
qed

section \<open>Discovery: the runtimes\<close>

lemma appendDashboardRef_names:
  "map rt_Name (fst (appendDashboardRef runtime ref runtimes)) = map rt_Name runtimes"
  by (induction runtimes) (auto split: prod.splits)

lemma appendDashboardRef_found:
  "snd (appendDashboardRef runtime ref runtimes) \<longleftrightarrow> runtime \<in> rt_Name ` set runtimes"
  by (induction runtimes) (auto split: prod.splits)

lemma appendDashboardRef_absent:
  "runtime \<notin> rt_Name ` set runtimes \<Longrightarrow> appendDashboardRef runtime ref runtimes = (runtimes, False)"
  by (induction runtimes) (auto split: prod.splits)

lemma appendDashboardRef_present:
  "rt_Name r = runtime \<Longrightarrow> runtime \<notin> rt_Name ` set xs \<Longrightarrow>
     appendDashboardRef runtime ref (xs @ r # ys) = (xs @ r\<lparr>DashboardRefs := DashboardRefs r @ [ref]\<rparr> # ys, True)"
  by (induction xs) (auto split: prod.splits)

lemma addDashboardToRuntimes_names:
  "map rt_Name (addDashboardToRuntimes d runtimes) =
     (if Runtime (Spec d) \<in> rt_Name ` set runtimes then map rt_Name runtimes
      else map rt_Name runtimes @ [Runtime (Spec d)])"
proof -
  let ?ref = "\<lparr>Template = Name d, ref_Title = Title (Spec d)\<rparr>"
  obtain rs found where a: "appendDashboardRef (Runtime (Spec d)) ?ref runtimes = (rs, found)"
    by (cases "appendDashboardRef (Runtime (Spec d)) ?ref runtimes")
  from a appendDashboardRef_names[of "Runtime (Spec d)" ?ref runtimes]
  have "map rt_Name rs = map rt_Name runtimes" by simp
  moreover from a appendDashboardRef_found[of "Runtime (Spec d)" ?ref runtimes]
  have "found \<longleftrightarrow> Runtime (Spec d) \<in> rt_Name ` set runtimes" by simp
  ultimately show ?thesis using a by (simp add: addDashboardToRuntimes_def)
qed

lemma addDashboardToRuntimes_distinct:
  "distinct (map rt_Name runtimes) \<Longrightarrow> distinct (map rt_Name (addDashboardToRuntimes d runtimes))"
  by (auto simp: addDashboardToRuntimes_names)

lemma runtimes_distinct:
  "distinct (map rt_Name runtimes) \<Longrightarrow>
   distinct (map rt_Name (fold (\<lambda>(key, dashboard) runtimes.
                             case dashboard of None \<Rightarrow> runtimes
                             | Some dashboard \<Rightarrow> addDashboardToRuntimes dashboard runtimes) entries runtimes))"
  by (induction entries arbitrary: runtimes)
     (simp_all add: addDashboardToRuntimes_distinct split: option.splits prod.splits)

lemma distinct_map_insort_key:
  "distinct (map g (insort_key f x xs)) \<longleftrightarrow> g x \<notin> g ` set xs \<and> distinct (map g xs)"
  by (induction xs) (auto simp: set_insort_key)

lemma distinct_map_sort_key: "distinct (map g (sort_key f xs)) \<longleftrightarrow> distinct (map g xs)"
  by (induction xs) (auto simp: sort_key_def distinct_map_insort_key simp flip: sort_key_def)

lemma sort_key_strict:
  assumes "distinct (map f xs)"
  shows "sorted_wrt (<) (map f (sort_key f xs))"
  using assms by (simp add: strict_sorted_iff distinct_map_sort_key)

text \<open>The map of the matcher, whatever the order of the visits.\<close>

lemma markIncluded_map_of:
  "map_of (markIncluded items m) k =
     (if k \<in> set (filter (\<lambda>key. key \<noteq> []) (map Include items)) then Some None else map_of m k)"
  by (induction items arbitrary: m) (auto simp: update_conv')

lemma markIncluded_distinct: "distinct (map fst m) \<Longrightarrow> distinct (map fst (markIncluded items m))"
  by (induction items arbitrary: m) (auto simp: distinct_update)

lemma matchMetrics_eq:
  "matchMetrics d ref metrics m =
     (if ref \<in> TrimSpace ` set metrics
      then markIncluded (Items (Spec d))
             (if map_of m (Name d) = None then AList.update (Name d) (Some d) m else m)
      else m)"
  by (induction metrics) auto

lemma matchDashboard_map_of:
  "map_of (matchDashboard metrics d m) k =
     (if matched metrics d
      then (if k \<in> marks d then Some None
            else if k = Name d \<and> map_of m k = None then Some (Some d) else map_of m k)
      else map_of m k)"
  by (auto simp: matchDashboard_def Let_def matchMetrics_eq markIncluded_map_of matched_def marks_def update_conv')

lemma matchDashboard_distinct: "distinct (map fst m) \<Longrightarrow> distinct (map fst (matchDashboard metrics d m))"
  by (auto simp: matchDashboard_def Let_def matchMetrics_eq markIncluded_distinct distinct_update)

lemma fold_matchDashboard_distinct:
  "distinct (map fst m) \<Longrightarrow> distinct (map fst (fold (\<lambda>(key, d). matchDashboard metrics d) es m))"
  by (induction es arbitrary: m) (auto simp: matchDashboard_distinct)

lemma fold_matchDashboard_map_of:
  "map_of (fold (\<lambda>(key, d). matchDashboard metrics d) es m) k =
     (if \<exists>d \<in> snd ` set es. matched metrics d \<and> k \<in> marks d then Some None
      else (case map_of m k of
              Some v \<Rightarrow> Some v
            | None \<Rightarrow> (case find (\<lambda>d. matched metrics d \<and> Name d = k) (map snd es) of
                         Some d \<Rightarrow> Some (Some d) | None \<Rightarrow> None)))"
proof (induction es arbitrary: m)
  case Nil
  then show ?case by (simp split: option.splits)
next
  case (Cons e es)
  obtain key d where e: "e = (key, d)" by (cases e)
  show ?case
    unfolding e using Cons.IH[of "matchDashboard metrics d m"]
    by (auto simp: matchDashboard_map_of split: option.splits)
qed

lemma find_distinct:
  "distinct (map f xs) \<Longrightarrow> find (\<lambda>x. Q x \<and> f x = k) xs = Some x \<longleftrightarrow> x \<in> set xs \<and> Q x \<and> f x = k"
  by (induction xs) (auto simp: image_iff)

lemma runtimesMap_entries:
  assumes "distinct (map (Name \<circ> snd) allDashboards)"
  shows "(k, Some d) \<in> set (fold (\<lambda>(key, d). matchDashboard metrics d) (rangeOrder rank allDashboards) [])
         \<longleftrightarrow> reported metrics allDashboards d \<and> k = Name d"
proof -
  let ?es = "rangeOrder rank allDashboards"
  let ?M = "fold (\<lambda>(key, d). matchDashboard metrics d) ?es []"
  have set_es: "set ?es = set allDashboards" by (simp add: rangeOrder_def)
  have "distinct (map (Name \<circ> snd) ?es)"
    using assms by (simp add: rangeOrder_def distinct_map_sort_key)
  then have dist: "distinct (map Name (map snd ?es))" by simp
  have "distinct (map fst ?M)" by (rule fold_matchDashboard_distinct) simp
  then have "(k, Some d) \<in> set ?M \<longleftrightarrow> map_of ?M k = Some (Some d)" by simp
  also have "\<dots> \<longleftrightarrow> \<not> (\<exists>d' \<in> snd ` set ?es. matched metrics d' \<and> k \<in> marks d')
                    \<and> find (\<lambda>d. matched metrics d \<and> Name d = k) (map snd ?es) = Some d"
    by (simp add: fold_matchDashboard_map_of split: option.splits)
  also have "\<dots> \<longleftrightarrow> \<not> (\<exists>d' \<in> snd ` set ?es. matched metrics d' \<and> k \<in> marks d')
                    \<and> d \<in> set (map snd ?es) \<and> matched metrics d \<and> Name d = k"
    by (simp only: find_distinct[OF dist])
  also have "\<dots> \<longleftrightarrow> reported metrics allDashboards d \<and> k = Name d"
    by (auto simp: reported_def set_es)
  finally show ?thesis .
qed

lemma refsOf_Nil: "refsOf [] n = {}"
  by (simp add: refsOf_def)

lemma refsOf_Cons: "refsOf (r # rs) n = (if rt_Name r = n then set (DashboardRefs r) else {}) \<union> refsOf rs n"
  by (simp add: refsOf_def)

lemma refsOf_append: "refsOf (xs @ ys) n = refsOf xs n \<union> refsOf ys n"
  by (auto simp: refsOf_def)

lemma appendDashboardRef_refsOf:
  "refsOf (fst (appendDashboardRef runtime ref runtimes)) n =
     refsOf runtimes n \<union> (if n = runtime \<and> runtime \<in> rt_Name ` set runtimes then {ref} else {})"
  by (induction runtimes) (auto simp: refsOf_Nil refsOf_Cons split: prod.splits)

lemma addDashboardToRuntimes_refsOf:
  "refsOf (addDashboardToRuntimes d runtimes) n =
     refsOf runtimes n \<union> (if Runtime (Spec d) = n then {refOf d} else {})"
proof -
  let ?ref = "\<lparr>Template = Name d, ref_Title = Title (Spec d)\<rparr>"
  obtain rs found where a: "appendDashboardRef (Runtime (Spec d)) ?ref runtimes = (rs, found)"
    by (cases "appendDashboardRef (Runtime (Spec d)) ?ref runtimes")
  from a appendDashboardRef_refsOf[of "Runtime (Spec d)" ?ref runtimes n]
  have 1: "refsOf rs n = refsOf runtimes n \<union>
      (if n = Runtime (Spec d) \<and> Runtime (Spec d) \<in> rt_Name ` set runtimes then {?ref} else {})" by simp
  from a appendDashboardRef_found[of "Runtime (Spec d)" ?ref runtimes]
  have 2: "found \<longleftrightarrow> Runtime (Spec d) \<in> rt_Name ` set runtimes" by simp
  show ?thesis using a 1 2
    by (auto simp: addDashboardToRuntimes_def Let_def refsOf_append refsOf_Cons refsOf_Nil refOf_def)
qed

lemma fold_refsOf:
  "refsOf (fold (\<lambda>(key, dashboard) runtimes.
                   case dashboard of None \<Rightarrow> runtimes
                   | Some dashboard \<Rightarrow> addDashboardToRuntimes dashboard runtimes) entries runtimes) n =
     refsOf runtimes n \<union> {refOf d | d. (\<exists>k. (k, Some d) \<in> set entries) \<and> Runtime (Spec d) = n}"
proof (induction entries arbitrary: runtimes)
  case Nil
  then show ?case by simp
next
  case (Cons e entries)
  obtain k v where e: "e = (k, v)" by (cases e)
  show ?case
  proof (cases v)
    case None
    then show ?thesis using Cons.IH[of runtimes] by (auto simp: e)
  next
    case (Some d)
    then show ?thesis using Cons.IH[of "addDashboardToRuntimes d runtimes"]
      by (auto simp: e addDashboardToRuntimes_refsOf)
  qed
qed

lemma fold_names:
  "set (map rt_Name (fold (\<lambda>(key, dashboard) runtimes.
                   case dashboard of None \<Rightarrow> runtimes
                   | Some dashboard \<Rightarrow> addDashboardToRuntimes dashboard runtimes) entries runtimes)) =
     set (map rt_Name runtimes) \<union> {Runtime (Spec d) | d. \<exists>k. (k, Some d) \<in> set entries}"
proof (induction entries arbitrary: runtimes)
  case Nil
  then show ?case by simp
next
  case (Cons e entries)
  obtain k v where e: "e = (k, v)" by (cases e)
  show ?case
  proof (cases v)
    case None
    then show ?thesis using Cons.IH[of runtimes] by (auto simp: e)
  next
    case (Some d)
    then show ?thesis using Cons.IH[of "addDashboardToRuntimes d runtimes"]
      by (auto simp: e addDashboardToRuntimes_names)
  qed
qed

lemma refsOf_distinct:
  "distinct (map rt_Name runtimes) \<Longrightarrow> r \<in> set runtimes \<Longrightarrow> refsOf runtimes (rt_Name r) = set (DashboardRefs r)"
  by (induction runtimes) (auto simp: refsOf_def image_iff)

lemma runDiscoveryMatcher_names:
  assumes "distinct (map (Name \<circ> snd) allDashboards)"
  shows "rt_Name ` set (runDiscoveryMatcher rank1 rank2 metrics allDashboards) =
           {Runtime (Spec d) | d. reported metrics allDashboards d}"
  unfolding runDiscoveryMatcher_def Let_def
  by (simp only: set_sort fold_names[simplified set_map] rangeOrder_def[of rank2]
        runtimesMap_entries[OF assms]) auto

lemma runDiscoveryMatcher_refs:
  assumes "distinct (map (Name \<circ> snd) allDashboards)"
    and "r \<in> set (runDiscoveryMatcher rank1 rank2 metrics allDashboards)"
  shows "set (DashboardRefs r) = {refOf d | d. reported metrics allDashboards d \<and> Runtime (Spec d) = rt_Name r}"
proof -
  let ?M = "fold (\<lambda>(key, d). matchDashboard metrics d) (rangeOrder rank1 allDashboards) []"
  let ?rs = "fold (\<lambda>(key, dashboard) runtimes.
                   case dashboard of None \<Rightarrow> runtimes
                   | Some dashboard \<Rightarrow> addDashboardToRuntimes dashboard runtimes) (rangeOrder rank2 ?M) []"
  have r: "r \<in> set ?rs" using assms(2) by (simp add: runDiscoveryMatcher_def Let_def)
  have "distinct (map rt_Name ?rs)" by (rule runtimes_distinct) simp
  from refsOf_distinct[OF this r]
  have "set (DashboardRefs r) = refsOf ?rs (rt_Name r)" by simp
  also have "\<dots> = {refOf d | d. (\<exists>k. (k, Some d) \<in> set (rangeOrder rank2 ?M)) \<and> Runtime (Spec d) = rt_Name r}"
    by (simp only: fold_refsOf) (simp add: refsOf_def)
  also have "\<dots> = {refOf d | d. reported metrics allDashboards d \<and> Runtime (Spec d) = rt_Name r}"
    by (simp add: rangeOrder_def[of rank2] runtimesMap_entries[OF assms(1)])
  finally show ?thesis .
qed

lemma runDiscoveryMatcher_order:
  assumes "distinct (map (Name \<circ> snd) allDashboards)"
  shows "map rt_Name (runDiscoveryMatcher rank1 rank2 metrics allDashboards) =
         map rt_Name (runDiscoveryMatcher rank1' rank2' metrics allDashboards)"
proof (rule strict_sorted_equal)
  show "sorted_wrt (<) (map rt_Name (runDiscoveryMatcher rank1 rank2 metrics allDashboards))"
    unfolding runDiscoveryMatcher_def Let_def
    by (rule sort_key_strict) (rule runtimes_distinct, simp)
  show "sorted_wrt (<) (map rt_Name (runDiscoveryMatcher rank1' rank2' metrics allDashboards))"
    unfolding runDiscoveryMatcher_def Let_def
    by (rule sort_key_strict) (rule runtimes_distinct, simp)
  show "set (map rt_Name (runDiscoveryMatcher rank1 rank2 metrics allDashboards)) =
        set (map rt_Name (runDiscoveryMatcher rank1' rank2' metrics allDashboards))"
    by (simp only: set_map runDiscoveryMatcher_names[OF assms])
qed

lemma set_AList_update: "set (AList.update k v al) \<subseteq> insert (k, v) (set al)"
  by (induction al) auto

lemma fold_update_names:
  fixes allDashboards :: "(string \<times> MonitoringDashboard) list"
  assumes "distinct (map fst allDashboards)" and "\<forall>(k, d) \<in> set allDashboards. Name d = k"
  shows "distinct (map fst (fold (\<lambda>d m. AList.update (Name d) d m) dashboards allDashboards))
   \<and> (\<forall>(k, d) \<in> set (fold (\<lambda>d m. AList.update (Name d) d m) dashboards allDashboards). Name d = k)"
  using assms
proof (induction dashboards arbitrary: allDashboards)
  case Nil
  then show ?case by simp
next
  case (Cons d dashboards)
  have "distinct (map fst (AList.update (Name d) d allDashboards))"
    using Cons.prems(1) by (simp add: distinct_update)
  moreover have "\<forall>(k, d') \<in> set (AList.update (Name d) d allDashboards). Name d' = k"
    using Cons.prems(2) set_AList_update[of "Name d" d allDashboards] by auto
  ultimately show ?case using Cons.IH[of "AList.update (Name d) d allDashboards"] by simp
qed

lemma loadRawDashboardResources_names:
  assumes "loadRawDashboardResources in' namespace = Inr allDashboards"
  shows "distinct (map (Name \<circ> snd) allDashboards)"
proof -
  define inv where "inv = (\<lambda>m :: (string \<times> MonitoringDashboard) list.
      distinct (map fst m) \<and> (\<forall>(k, d) \<in> set m. Name d = k))"
  have i0: "inv []" by (simp add: inv_def)
  have i1: "inv (fold (\<lambda>d m. AList.update (Name d) d m) ds m)" if "inv m" for ds m
    using that fold_update_names[of m ds] unfolding inv_def by blast
  have "inv allDashboards"
    using assms by (auto simp: loadRawDashboardResources_def split: if_splits sum.splits intro: i0 i1)
  then have "distinct (map fst allDashboards)" "map (Name \<circ> snd) allDashboards = map fst allDashboards"
    by (auto simp: inv_def)
  then show ?thesis by (simp only:)
qed

lemma DiscoverDashboards_order:
  "map rt_Name (DiscoverDashboards rank1 rank2 in' namespace labelsFilters) =
   map rt_Name (DiscoverDashboards rank1' rank2' in' namespace labelsFilters)"
proof (cases "loadRawDashboardResources in' namespace")
  case (Inl err)
  then show ?thesis by (simp add: DiscoverDashboards_def)
next
  case (Inr allDashboards)
  from runDiscoveryMatcher_order[OF loadRawDashboardResources_names[OF Inr]] Inr
  show ?thesis by (simp add: DiscoverDashboards_def Let_def)
qed

text \<open>
  C8. For every order in which the two maps are visited (every pair of rankings) the
  runtimes of the discovery output are in strictly ascending order of their names, so
  no two groups have one name, and the names are the same list for every order. With
  one dashboard per name, as in the map \<open>loadRawDashboardResources\<close> builds, the groups
  are those of the runtimes of the reported dashboards, and the references of a group
  are those of the reported dashboards of its runtime (their order in the group follows
  the visits). \<open>addDashboardToRuntimes\<close> groups by the runtime name: a dashboard whose
  runtime has no group yet gets a new group at the end, with its reference (template
  name and title) alone; otherwise its reference is appended to the references of the
  first group of that name, and nothing else changes.
\<close>

theorem runDiscoveryMatcher_sorted_grouped:
  "sorted_wrt (<) (map rt_Name (runDiscoveryMatcher rank1 rank2 metrics allDashboards))
   \<and> map rt_Name (DiscoverDashboards rank1 rank2 in' namespace labelsFilters) =
       map rt_Name (DiscoverDashboards rank1' rank2' in' namespace labelsFilters)
   \<and> (distinct (map (Name \<circ> snd) allDashboards) \<longrightarrow>
        map rt_Name (runDiscoveryMatcher rank1 rank2 metrics allDashboards) =
          map rt_Name (runDiscoveryMatcher rank1' rank2' metrics allDashboards)
        \<and> rt_Name ` set (runDiscoveryMatcher rank1 rank2 metrics allDashboards) =
            {Runtime (Spec d) | d. reported metrics allDashboards d}
        \<and> (\<forall>g \<in> set (runDiscoveryMatcher rank1 rank2 metrics allDashboards).
             set (DashboardRefs g) =
               {refOf d | d. reported metrics allDashboards d \<and> Runtime (Spec d) = rt_Name g}))
   \<and> (Runtime (Spec d) \<notin> rt_Name ` set runtimes \<longrightarrow>
        addDashboardToRuntimes d runtimes =
          runtimes @ [\<lparr>rt_Name = Runtime (Spec d),
                       DashboardRefs = [\<lparr>Template = Name d, ref_Title = Title (Spec d)\<rparr>]\<rparr>])
   \<and> (rt_Name r = Runtime (Spec d) \<and> Runtime (Spec d) \<notin> rt_Name ` set xs \<longrightarrow>
        addDashboardToRuntimes d (xs @ r # ys) =
          xs @ r\<lparr>DashboardRefs := DashboardRefs r @ [\<lparr>Template = Name d, ref_Title = Title (Spec d)\<rparr>]\<rparr> # ys)"
proof -
  have 1: "sorted_wrt (<) (map rt_Name (runDiscoveryMatcher rank1 rank2 metrics allDashboards))"
    unfolding runDiscoveryMatcher_def Let_def
    by (rule sort_key_strict) (rule runtimes_distinct, simp)
  note 2 = DiscoverDashboards_order[of rank1 rank2 in' namespace labelsFilters rank1' rank2']
  have 3: "map rt_Name (runDiscoveryMatcher rank1 rank2 metrics allDashboards) =
          map rt_Name (runDiscoveryMatcher rank1' rank2' metrics allDashboards)
        \<and> rt_Name ` set (runDiscoveryMatcher rank1 rank2 metrics allDashboards) =
            {Runtime (Spec d) | d. reported metrics allDashboards d}
        \<and> (\<forall>g \<in> set (runDiscoveryMatcher rank1 rank2 metrics allDashboards).
             set (DashboardRefs g) =
               {refOf d | d. reported metrics allDashboards d \<and> Runtime (Spec d) = rt_Name g})"
    if "distinct (map (Name \<circ> snd) allDashboards)"
  proof (intro conjI ballI)
    show "map rt_Name (runDiscoveryMatcher rank1 rank2 metrics allDashboards) =
          map rt_Name (runDiscoveryMatcher rank1' rank2' metrics allDashboards)"
      by (rule runDiscoveryMatcher_order[OF that])
    show "rt_Name ` set (runDiscoveryMatcher rank1 rank2 metrics allDashboards) =
            {Runtime (Spec d) | d. reported metrics allDashboards d}"
      by (rule runDiscoveryMatcher_names[OF that])
    fix g assume "g \<in> set (runDiscoveryMatcher rank1 rank2 metrics allDashboards)"
    then show "set (DashboardRefs g) =
               {refOf d | d. reported metrics allDashboards d \<and> Runtime (Spec d) = rt_Name g}"
      by (rule runDiscoveryMatcher_refs[OF that])
  qed
  have 4: "addDashboardToRuntimes d runtimes =
          runtimes @ [\<lparr>rt_Name = Runtime (Spec d),
                       DashboardRefs = [\<lparr>Template = Name d, ref_Title = Title (Spec d)\<rparr>]\<rparr>]"
    if "Runtime (Spec d) \<notin> rt_Name ` set runtimes"
    using that by (simp add: addDashboardToRuntimes_def appendDashboardRef_absent)
  have 5: "addDashboardToRuntimes d (xs @ r # ys) =
          xs @ r\<lparr>DashboardRefs := DashboardRefs r @ [\<lparr>Template = Name d, ref_Title = Title (Spec d)\<rparr>]\<rparr> # ys"
    if "rt_Name r = Runtime (Spec d) \<and> Runtime (Spec d) \<notin> rt_Name ` set xs"
    using that by (simp add: addDashboardToRuntimes_def appendDashboardRef_present)
  show ?thesis
    by (intro conjI) (rule 1 2 | (rule impI, erule 3 4 5))+
qed


theorem runDiscoveryMatcher_sorted_grouped_witness:
  "sorted_wrt (<) (map rt_Name (runDiscoveryMatcher length (\<lambda>k. 10 - length k)
      [''vertx_metric'', ''jvm_metric'', ''go_metric''] exampleDashboards))
   \<and> runDiscoveryMatcher length (\<lambda>k. 10 - length k)
      [''vertx_metric'', ''jvm_metric'', ''go_metric''] exampleDashboards =
      [\<lparr>rt_Name = ''Go'', DashboardRefs = [\<lparr>Template = ''go'', ref_Title = ''go''\<rparr>]\<rparr>,
       \<lparr>rt_Name = ''Vert.x'', DashboardRefs = [\<lparr>Template = ''vertx-jvm'', ref_Title = ''vertx-jvm''\<rparr>,
                                               \<lparr>Template = ''vertx'', ref_Title = ''vertx''\<rparr>]\<rparr>]
   \<and> runDiscoveryMatcher (\<lambda>k. 0) (\<lambda>k. 0)
      [''vertx_metric'', ''jvm_metric'', ''go_metric''] exampleDashboards =
      [\<lparr>rt_Name = ''Go'', DashboardRefs = [\<lparr>Template = ''go'', ref_Title = ''go''\<rparr>]\<rparr>,
       \<lparr>rt_Name = ''Vert.x'', DashboardRefs = [\<lparr>Template = ''vertx'', ref_Title = ''vertx''\<rparr>,
                                               \<lparr>Template = ''vertx-jvm'', ref_Title = ''vertx-jvm''\<rparr>]\<rparr>]
   \<and> map rt_Name (DiscoverDashboards length (\<lambda>k. 10 - length k)
          (discoveryCluster (\<lambda>s. ([''go_metric'', ''vertx_metric''], None))) ''ns1'' []) =
       map rt_Name (DiscoverDashboards (\<lambda>k. 0) (\<lambda>k. 0)
          (discoveryCluster (\<lambda>s. ([''go_metric'', ''vertx_metric''], None))) ''ns1'' [])
   \<and> distinct (map (Name \<circ> snd) exampleDashboards)
   \<and> map rt_Name (runDiscoveryMatcher length (\<lambda>k. 10 - length k)
          [''vertx_metric'', ''jvm_metric'', ''go_metric''] exampleDashboards) =
       map rt_Name (runDiscoveryMatcher (\<lambda>k. 0) (\<lambda>k. 0)
          [''vertx_metric'', ''jvm_metric'', ''go_metric''] exampleDashboards)
   \<and> {Runtime (Spec d) | d. reported [''vertx_metric'', ''jvm_metric'', ''go_metric''] exampleDashboards d} =
       {''Go'', ''Vert.x''}
   \<and> {refOf d | d. reported [''vertx_metric'', ''jvm_metric'', ''go_metric''] exampleDashboards d
                   \<and> Runtime (Spec d) = ''Vert.x''} =
       {\<lparr>Template = ''vertx-jvm'', ref_Title = ''vertx-jvm''\<rparr>, \<lparr>Template = ''vertx'', ref_Title = ''vertx''\<rparr>}
   \<and> Runtime (Spec (dashboardOf ''go'' ''Go'' ''go_metric'' [])) \<notin> rt_Name ` set [vertxGroup]
   \<and> addDashboardToRuntimes (dashboardOf ''go'' ''Go'' ''go_metric'' []) [vertxGroup] =
        [vertxGroup, \<lparr>rt_Name = ''Go'', DashboardRefs = [\<lparr>Template = ''go'', ref_Title = ''go''\<rparr>]\<rparr>]
   \<and> rt_Name vertxGroup = Runtime (Spec (dashboardOf ''vertx-jvm'' ''Vert.x'' ''jvm_metric'' []))
   \<and> addDashboardToRuntimes (dashboardOf ''vertx-jvm'' ''Vert.x'' ''jvm_metric'' []) [vertxGroup] =
        [\<lparr>rt_Name = ''Vert.x'', DashboardRefs = [\<lparr>Template = ''vertx'', ref_Title = ''vertx''\<rparr>,
                                                \<lparr>Template = ''vertx-jvm'', ref_Title = ''vertx-jvm''\<rparr>]\<rparr>]"
proof -
  let ?go = "dashboardOf ''go'' ''Go'' ''go_metric'' []"
  let ?jvm = "dashboardOf ''vertx-jvm'' ''Vert.x'' ''jvm_metric'' []"
  let ?ms = "[''vertx_metric'', ''jvm_metric'', ''go_metric'']"
  let ?up = "discoveryCluster (\<lambda>s. ([''go_metric'', ''vertx_metric''], None))"
  let ?r = "\<lambda>k::string. 0::nat"
  let ?r2 = "\<lambda>k::string. 10 - length k"
  let ?vx = "\<lparr>rt_Name = ''Vert.x'', DashboardRefs = [\<lparr>Template = ''vertx-jvm'', ref_Title = ''vertx-jvm''\<rparr>,
                                               \<lparr>Template = ''vertx'', ref_Title = ''vertx''\<rparr>]\<rparr>"
  note t = runDiscoveryMatcher_sorted_grouped
  note u = t[of length ?r2 ?ms exampleDashboards ?up "''ns1''" "[]" ?r ?r]
  have 1: "sorted_wrt (<) (map rt_Name (runDiscoveryMatcher length ?r2 ?ms exampleDashboards))"
    using u by (rule conjunct1)
  have 2: "runDiscoveryMatcher length ?r2 ?ms exampleDashboards =
      [\<lparr>rt_Name = ''Go'', DashboardRefs = [\<lparr>Template = ''go'', ref_Title = ''go''\<rparr>]\<rparr>, ?vx]"
    by code_simp
  have 3: "runDiscoveryMatcher ?r ?r ?ms exampleDashboards =
      [\<lparr>rt_Name = ''Go'', DashboardRefs = [\<lparr>Template = ''go'', ref_Title = ''go''\<rparr>]\<rparr>,
       \<lparr>rt_Name = ''Vert.x'', DashboardRefs = [\<lparr>Template = ''vertx'', ref_Title = ''vertx''\<rparr>,
                                               \<lparr>Template = ''vertx-jvm'', ref_Title = ''vertx-jvm''\<rparr>]\<rparr>]"
    by code_simp
  have d1: "map rt_Name (DiscoverDashboards length ?r2 ?up ''ns1'' []) =
       map rt_Name (DiscoverDashboards ?r ?r ?up ''ns1'' [])"
    by (rule u[THEN conjunct2, THEN conjunct1])
  have d2: "distinct (map (Name \<circ> snd) exampleDashboards)"
    by (simp add: exampleDashboards_def dashboardOf_def)
  have g: "map rt_Name (runDiscoveryMatcher length ?r2 ?ms exampleDashboards) =
          map rt_Name (runDiscoveryMatcher ?r ?r ?ms exampleDashboards)
        \<and> rt_Name ` set (runDiscoveryMatcher length ?r2 ?ms exampleDashboards) =
            {Runtime (Spec d) | d. reported ?ms exampleDashboards d}
        \<and> (\<forall>g \<in> set (runDiscoveryMatcher length ?r2 ?ms exampleDashboards).
             set (DashboardRefs g) =
               {refOf d | d. reported ?ms exampleDashboards d \<and> Runtime (Spec d) = rt_Name g})"
    by (rule u[THEN conjunct2, THEN conjunct2, THEN conjunct1, THEN mp, OF d2])
  have d3: "map rt_Name (runDiscoveryMatcher length ?r2 ?ms exampleDashboards) =
          map rt_Name (runDiscoveryMatcher ?r ?r ?ms exampleDashboards)"
    using g by (rule conjunct1)
  have n: "rt_Name ` set (runDiscoveryMatcher length ?r2 ?ms exampleDashboards) = {''Go'', ''Vert.x''}"
    unfolding 2 by simp
  have d4: "{Runtime (Spec d) | d. reported ?ms exampleDashboards d} = {''Go'', ''Vert.x''}"
    by (rule trans[OF g[THEN conjunct2, THEN conjunct1, symmetric] n])
  have v: "?vx \<in> set (runDiscoveryMatcher length ?r2 ?ms exampleDashboards)"
    unfolding 2 by simp
  have "set (DashboardRefs ?vx) =
      {refOf d | d. reported ?ms exampleDashboards d \<and> Runtime (Spec d) = rt_Name ?vx}"
    by (rule g[THEN conjunct2, THEN conjunct2, THEN bspec, OF v])
  then have d5: "{refOf d | d. reported ?ms exampleDashboards d \<and> Runtime (Spec d) = ''Vert.x''} =
       {\<lparr>Template = ''vertx-jvm'', ref_Title = ''vertx-jvm''\<rparr>, \<lparr>Template = ''vertx'', ref_Title = ''vertx''\<rparr>}"
    by simp
  have 4: "Runtime (Spec ?go) \<notin> rt_Name ` set [vertxGroup]"
    by (simp add: dashboardOf_def vertxGroup_def)
  have 5: "rt_Name vertxGroup = Runtime (Spec ?jvm)" "Runtime (Spec ?jvm) \<notin> rt_Name ` set []"
    by (simp_all add: dashboardOf_def vertxGroup_def)
  from t[where d = ?go and runtimes = "[vertxGroup]"] 4
  have 6: "addDashboardToRuntimes ?go [vertxGroup] =
        [vertxGroup, \<lparr>rt_Name = ''Go'', DashboardRefs = [\<lparr>Template = ''go'', ref_Title = ''go''\<rparr>]\<rparr>]"
    by (simp add: dashboardOf_def)
  from t[where d = ?jvm and r = vertxGroup and xs = "[]" and ys = "[]"] 5
  have 7: "addDashboardToRuntimes ?jvm [vertxGroup] =
        [\<lparr>rt_Name = ''Vert.x'', DashboardRefs = [\<lparr>Template = ''vertx'', ref_Title = ''vertx''\<rparr>,
                                                \<lparr>Template = ''vertx-jvm'', ref_Title = ''vertx-jvm''\<rparr>]\<rparr>]"
    by (simp add: dashboardOf_def vertxGroup_def)
  from 1 2 3 d1 d2 d3 d4 d5 4 5(1) 6 7 show ?thesis
    by (intro conjI)
qed

lemma matchDashboard_no_metrics: "matchDashboard [] d m = m"
  by (simp add: matchDashboard_def Let_def)

lemma runDiscoveryMatcher_no_metrics: "runDiscoveryMatcher rank1 rank2 [] allDashboards = []"
proof -
  have "fold (\<lambda>(key, d). matchDashboard [] d) xs m = m" for xs :: "(string \<times> MonitoringDashboard) list" and m
    by (induction xs) (auto simp: matchDashboard_no_metrics)
  then show ?thesis by (simp add: runDiscoveryMatcher_def rangeOrder_def)
qed

text \<open>
  C6, as amended. When loading the dashboards fails, \<open>DiscoverDashboards\<close> returns the
  empty list of runtimes: its result type has no error, the failure is logged only.
  When the metrics client cannot be initialised the metric names are the empty list.
  When the client's call returns an error, the error is logged and the metric names are
  the names that came with it: the empty list, and then no runtime, when the client
  gives no names next to its error. When the dashboards load, the result is the
  matcher's on the fetched names.
\<close>

theorem DiscoverDashboards_failures:
  "(loadRawDashboardResources in' namespace = Inl err \<longrightarrow>
      DiscoverDashboards rank1 rank2 in' namespace labelsFilters = [])
   \<and> (prom in' = Inl err \<longrightarrow>
        fetchMetricNames in' namespace labelsFilters = []
        \<and> DiscoverDashboards rank1 rank2 in' namespace labelsFilters = [])
   \<and> (prom in' = Inr client
        \<and> GetMetricsForLabels client [buildLabels in' namespace labelsFilters] = (metrics, failure) \<longrightarrow>
        fetchMetricNames in' namespace labelsFilters = metrics)
   \<and> (prom in' = Inr client
        \<and> GetMetricsForLabels client [buildLabels in' namespace labelsFilters] = ([], Some err) \<longrightarrow>
        fetchMetricNames in' namespace labelsFilters = []
        \<and> DiscoverDashboards rank1 rank2 in' namespace labelsFilters = [])
   \<and> (loadRawDashboardResources in' namespace = Inr allDashboards \<longrightarrow>
        DiscoverDashboards rank1 rank2 in' namespace labelsFilters =
          runDiscoveryMatcher rank1 rank2 (fetchMetricNames in' namespace labelsFilters) allDashboards)"
  by (auto simp: DiscoverDashboards_def fetchMetricNames_def runDiscoveryMatcher_no_metrics split: sum.splits)

theorem DiscoverDashboards_failures_witness:
  "loadRawDashboardResources noCluster ''ns1'' = Inl CannotInitializeKubernetes
   \<and> DiscoverDashboards (\<lambda>k. 0) (\<lambda>k. 0) noCluster ''ns1'' [] = []
   \<and> loadRawDashboardResources exampleTiers ''locked'' = Inl (BackendUnavailable ''locked'')
   \<and> DiscoverDashboards (\<lambda>k. 0) (\<lambda>k. 0) exampleTiers ''locked'' [] = []
   \<and> prom (serviceOf [] []) = Inl CannotInitializePrometheus
   \<and> fetchMetricNames (serviceOf [] []) ''ns1'' [] = []
   \<and> DiscoverDashboards (\<lambda>k. 0) (\<lambda>k. 0) (serviceOf [] []) ''ns1'' [] = []
   \<and> prom (discoveryCluster (\<lambda>s. ([], Some MetricsUnavailable))) =
        Inr \<lparr>GetMetricsForLabels = (\<lambda>s. ([], Some MetricsUnavailable))\<rparr>
   \<and> fetchMetricNames (discoveryCluster (\<lambda>s. ([], Some MetricsUnavailable))) ''ns1'' [] = []
   \<and> DiscoverDashboards (\<lambda>k. 0) (\<lambda>k. 0) (discoveryCluster (\<lambda>s. ([], Some MetricsUnavailable))) ''ns1'' [] = []
   \<and> prom (discoveryCluster (\<lambda>s. ([''go_metric''], Some MetricsUnavailable))) =
        Inr \<lparr>GetMetricsForLabels = (\<lambda>s. ([''go_metric''], Some MetricsUnavailable))\<rparr>
   \<and> fetchMetricNames (discoveryCluster (\<lambda>s. ([''go_metric''], Some MetricsUnavailable))) ''ns1'' [] = [''go_metric'']
   \<and> loadRawDashboardResources (discoveryCluster (\<lambda>s. ([''go_metric'', ''vertx_metric''], None))) ''ns1'' =
        Inr [(''vertx'', dashboardOf ''vertx'' ''Vert.x'' ''vertx_metric'' [inlineItem ''own'']),
             (''go'', dashboardOf ''go'' ''Go'' ''go_metric'' [inlineItem ''c2''])]
   \<and> DiscoverDashboards (\<lambda>k. 0) (\<lambda>k. 0) (discoveryCluster (\<lambda>s. ([''go_metric'', ''vertx_metric''], None))) ''ns1'' [] =
        [\<lparr>rt_Name = ''Go'', DashboardRefs = [\<lparr>Template = ''go'', ref_Title = ''go''\<rparr>]\<rparr>,
         \<lparr>rt_Name = ''Vert.x'', DashboardRefs = [\<lparr>Template = ''vertx'', ref_Title = ''vertx''\<rparr>]\<rparr>]"
proof -
  let ?r = "\<lambda>k::string. 0::nat"
  let ?none = "\<lambda>s::string list. ([]::string list, Some MetricsUnavailable)"
  let ?some = "\<lambda>s::string list. ([''go_metric''], Some MetricsUnavailable)"
  let ?both = "\<lambda>s::string list. ([''go_metric'', ''vertx_metric''], None::error option)"
  let ?down = "discoveryCluster ?none"
  let ?partial = "discoveryCluster ?some"
  let ?up = "discoveryCluster ?both"
  let ?all = "[(''vertx'', dashboardOf ''vertx'' ''Vert.x'' ''vertx_metric'' [inlineItem ''own'']),
             (''go'', dashboardOf ''go'' ''Go'' ''go_metric'' [inlineItem ''c2''])]"
  note t = DiscoverDashboards_failures
  have 1: "loadRawDashboardResources noCluster ''ns1'' = Inl CannotInitializeKubernetes"
    by (simp add: loadRawDashboardResources_def noCluster_def serviceOf_def serviceWith_def k8sGetDashboards_def k8s_def)
  from t[where in' = noCluster and namespace = "''ns1''" and err = CannotInitializeKubernetes
      and labelsFilters = "[]"] 1
  have 2: "DiscoverDashboards ?r ?r noCluster ''ns1'' [] = []" by simp
  have locked1: "loadRawDashboardResources exampleTiers ''locked'' = Inl (BackendUnavailable ''locked'')"
    by code_simp
  from t[where in' = exampleTiers and namespace = "''locked''" and err = "BackendUnavailable ''locked''"
      and labelsFilters = "[]"] locked1
  have locked2: "DiscoverDashboards ?r ?r exampleTiers ''locked'' [] = []" by simp
  have 3: "prom (serviceOf [] []) = Inl CannotInitializePrometheus"
    by (simp add: prom_def serviceOf_def serviceWith_def)
  from t[where in' = "serviceOf [] []" and namespace = "''ns1''" and err = CannotInitializePrometheus
      and labelsFilters = "[]"] 3
  have 4: "fetchMetricNames (serviceOf [] []) ''ns1'' [] = []"
    "DiscoverDashboards ?r ?r (serviceOf [] []) ''ns1'' [] = []" by simp_all
  have 5: "prom ?down = Inr \<lparr>GetMetricsForLabels = ?none\<rparr>"
    by (simp add: prom_def discoveryCluster_def serviceOf_def serviceWith_def)
  have 6: "GetMetricsForLabels \<lparr>GetMetricsForLabels = ?none\<rparr> [buildLabels ?down ''ns1'' []]
             = ([], Some MetricsUnavailable)" by simp
  from t[where in' = ?down and namespace = "''ns1''" and err = MetricsUnavailable and labelsFilters = "[]"
      and client = "\<lparr>GetMetricsForLabels = ?none\<rparr>"] 5 6
  have 7: "fetchMetricNames ?down ''ns1'' [] = []" "DiscoverDashboards ?r ?r ?down ''ns1'' [] = []"
    by simp_all
  have p1: "prom ?partial = Inr \<lparr>GetMetricsForLabels = ?some\<rparr>"
    by (simp add: prom_def discoveryCluster_def serviceOf_def serviceWith_def)
  have p2: "GetMetricsForLabels \<lparr>GetMetricsForLabels = ?some\<rparr> [buildLabels ?partial ''ns1'' []]
             = ([''go_metric''], Some MetricsUnavailable)" by simp
  from t[where in' = ?partial and namespace = "''ns1''" and labelsFilters = "[]"
      and client = "\<lparr>GetMetricsForLabels = ?some\<rparr>" and metrics = "[''go_metric'']"
      and failure = "Some MetricsUnavailable"] p1 p2
  have p3: "fetchMetricNames ?partial ''ns1'' [] = [''go_metric'']" by simp
  have 8: "loadRawDashboardResources ?up ''ns1'' = Inr ?all"
    by code_simp
  have 9: "fetchMetricNames ?up ''ns1'' [] = [''go_metric'', ''vertx_metric'']"
    by (simp add: fetchMetricNames_def prom_def discoveryCluster_def serviceOf_def serviceWith_def)
  have 10: "runDiscoveryMatcher ?r ?r [''go_metric'', ''vertx_metric''] ?all =
        [\<lparr>rt_Name = ''Go'', DashboardRefs = [\<lparr>Template = ''go'', ref_Title = ''go''\<rparr>]\<rparr>,
         \<lparr>rt_Name = ''Vert.x'', DashboardRefs = [\<lparr>Template = ''vertx'', ref_Title = ''vertx''\<rparr>]\<rparr>]"
    by code_simp
  from t[where in' = ?up and namespace = "''ns1''" and labelsFilters = "[]" and allDashboards = ?all
      and ?rank1.0 = ?r and ?rank2.0 = ?r] 8 9 10
  have 11: "DiscoverDashboards ?r ?r ?up ''ns1'' [] =
        [\<lparr>rt_Name = ''Go'', DashboardRefs = [\<lparr>Template = ''go'', ref_Title = ''go''\<rparr>]\<rparr>,
         \<lparr>rt_Name = ''Vert.x'', DashboardRefs = [\<lparr>Template = ''vertx'', ref_Title = ''vertx''\<rparr>]\<rparr>]"
    by simp
  from 1 2 locked1 locked2 3 4 5 7 p1 p3 8 11 show ?thesis by simp
qed

text \<open>
  C6 as stated fails: the claim has a failed load end in an error result. With no cluster
  client the load fails, and the result is the empty list, the same value discovery
  gives on a cluster that has no dashboards.
\<close>

theorem DiscoverDashboards_no_error_result:
  "loadRawDashboardResources noCluster ''ns1'' = Inl CannotInitializeKubernetes
   \<and> DiscoverDashboards (\<lambda>k. 0) (\<lambda>k. 0) noCluster ''ns1'' [] = []
   \<and> loadRawDashboardResources (serviceOf [] []) ''ns1'' = Inr []
   \<and> DiscoverDashboards (\<lambda>k. 0) (\<lambda>k. 0) (serviceOf [] []) ''ns1'' [] = []"
  by (simp add: DiscoverDashboards_def loadRawDashboardResources_def noCluster_def serviceOf_def serviceWith_def
      k8sGetDashboards_def k8s_def client_GetDashboards_def runDiscoveryMatcher_no_metrics fetchMetricNames_def prom_def)

text \<open>
  Names that come next to an error are matched like any others: with a client that
  answers \<open>go_metric\<close> and an error, discovery reports the dashboard discovered on it.
\<close>

lemma DiscoverDashboards_names_with_error:
  "DiscoverDashboards (\<lambda>k. 0) (\<lambda>k. 0) (discoveryCluster (\<lambda>s. ([''go_metric''], Some MetricsUnavailable))) ''ns1'' [] =
     [\<lparr>rt_Name = ''Go'', DashboardRefs = [\<lparr>Template = ''go'', ref_Title = ''go''\<rparr>]\<rparr>]"
  by code_simp

lemma TrimSpace_m1: "TrimSpace ''m1'' = ''m1''"
  by code_simp

text \<open>
  C5, at the failing input. \<open>Parent\<close> (discovered on \<open>m1\<close>) includes the chart \<open>ChartX\<close> of
  \<open>Child\<close> by the reference \<open>Child$ChartX\<close>; \<open>Child\<close> is discovered on \<open>m1\<close> too. With \<open>m1\<close>
  reported, whatever the order of the visits, the output holds the reference of \<open>Child\<close>
  as a dashboard of its own: the matcher marks the key \<open>Child$ChartX\<close>, not \<open>Child\<close>. The
  same happens when the reference is \<open>Child\<close> after a blank.
\<close>

theorem runDiscoveryMatcher_scoped_include_not_suppressed:
  "\<lparr>Template = ''Child'', ref_Title = ''Child''\<rparr>
     \<in> set (concat (map DashboardRefs (runDiscoveryMatcher rank1 rank2 [''m1''] (parentChild ''Child$ChartX''))))
   \<and> \<lparr>Template = ''Child'', ref_Title = ''Child''\<rparr>
     \<in> set (concat (map DashboardRefs (runDiscoveryMatcher rank1 rank2 [''m1''] (parentChild '' Child''))))"
  by (auto simp: runDiscoveryMatcher_def rangeOrder_def parentChild_def matchDashboard_def dashboardOf_def
      includeItem_def inlineItem_def TrimSpace_m1 addDashboardToRuntimes_def Let_def)

text \<open>
  The resolver reads the two references as references to \<open>Child\<close>: on the cluster that
  holds the two dashboards in \<open>ns1\<close>, the resolved \<open>Parent\<close> has the chart, or the charts,
  of \<open>Child\<close>.
\<close>

lemma resolver_reads_the_references:
  "loadAndResolveDashboardResource (serviceOf [] (map (Pair ''ns1'') (map snd (parentChild ''Child$ChartX''))))
       ''ns1'' ''Parent'' {} =
     Inr (dashboardOf ''Parent'' ''rt'' ''m1'' [inlineItem ''ChartX''], {''Parent'', ''Child''})
   \<and> loadAndResolveDashboardResource (serviceOf [] (map (Pair ''ns1'') (map snd (parentChild '' Child''))))
       ''ns1'' ''Parent'' {} =
     Inr (dashboardOf ''Parent'' ''rt'' ''m1'' [inlineItem ''ChartX'', inlineItem ''ChartY''], {''Parent'', ''Child''})"
  by code_simp

text \<open>With the plain reference \<open>Child\<close>, the spec's example, only \<open>Parent\<close> is reported.\<close>

lemma runDiscoveryMatcher_plain_include_suppressed:
  "runDiscoveryMatcher rank1 rank2 [''m1''] (parentChild ''Child'') =
     [\<lparr>rt_Name = ''rt'', DashboardRefs = [\<lparr>Template = ''Parent'', ref_Title = ''Parent''\<rparr>]\<rparr>]"
  by (auto simp: runDiscoveryMatcher_def rangeOrder_def parentChild_def matchDashboard_def dashboardOf_def
      includeItem_def inlineItem_def TrimSpace_m1 addDashboardToRuntimes_def Let_def)

text \<open>
  What the matcher does suppress: a dashboard whose name is, byte for byte, the
  \<open>Include\<close> string of an item of a matching dashboard has no reference in the output.
\<close>

lemma runDiscoveryMatcher_marked_suppressed:
  assumes "distinct (map (Name \<circ> snd) allDashboards)"
    and "(key, parent) \<in> set allDashboards" and "matched metrics parent"
    and "item \<in> set (Items (Spec parent))" and "Include item \<noteq> []"
    and "r \<in> set (runDiscoveryMatcher rank1 rank2 metrics allDashboards)"
    and "ref \<in> set (DashboardRefs r)"
  shows "Template ref \<noteq> Include item"
proof -
  from runDiscoveryMatcher_refs[OF assms(1,6)] assms(7)
  obtain d where d: "ref = refOf d" "reported metrics allDashboards d" by auto
  have "Include item \<in> marks parent" using assms(4,5) by (auto simp: marks_def)
  moreover have "parent \<in> snd ` set allDashboards" using assms(2) by force
  ultimately have "Name d \<noteq> Include item" using d(2) assms(3) by (auto simp: reported_def)
  then show ?thesis by (simp add: d(1) refOf_def)
qed

section \<open>Graphs: what is reached, and forests\<close>





section \<open>The resolver and the Include graph\<close>

declare loadAndResolveDashboardResource.simps [simp del] resolveReferences.simps [simp del]

lemma Split_nonempty: "Split s c \<noteq> []"
  by (induction s) (auto split: list.splits)






lemma resolveItems_include:
  assumes "TrimSpace (Include item) \<noteq> []"
  shows "resolveItems i ns (item # items) res L =
     (case Split (TrimSpace (Include item)) CHR ''$'' of
        [] \<Rightarrow> Inl IndexOutOfRange
      | n # ch \<Rightarrow>
         (case loadAndResolveDashboardResource i ns n L of
            Inl err \<Rightarrow> Inl err
          | Inr (c, L1) \<Rightarrow> resolveItems i ns items (res @ composedItems (n # ch) (Items (Spec c))) L1))"
  using assms by (simp add: Let_def)

lemma resolveItems_inline:
  assumes "TrimSpace (Include item) = []"
  shows "resolveItems i ns (item # items) res L = resolveItems i ns items (res @ [item]) L"
  using assms by (simp add: Let_def)



lemma forest_loaded: "forest inc rs L L' \<Longrightarrow> L' = L \<union> reach inc (set rs)"
  by (simp add: forest_def)











section \<open>Cycles\<close>





















section \<open>The set of loaded names only grows\<close>













section \<open>Flattening: what a resolved template holds\<close>

lemma composedItems_whole: "composedItems [n] items = items"
  by (induction items) auto

lemma composedItems_chart:
  "composedItems (n # chart # rest) items =
     (case find (\<lambda>item2. chart_Name (Chart item2) = chart) items of None \<Rightarrow> [] | Some item2 \<Rightarrow> [item2])"
  by (induction items) auto

lemma composedItems_subset: "set (composedItems parts items) \<subseteq> set items"
  by (induction items) (auto split: list.splits if_splits)

lemma Split_no_sep: "sep \<notin> set s \<Longrightarrow> Split s sep = [s]"
  by (induction s) auto

lemma Split_at_sep: "sep \<notin> set s \<Longrightarrow> Split (s @ sep # r) sep = s # Split r sep"
  by (induction s) auto

lemma Split_two: "sep \<in> set s \<Longrightarrow> \<exists>ref chart rest. Split s sep = ref # chart # rest"
proof -
  assume "sep \<in> set s"
  then obtain a b where s: "s = a @ sep # b" and a: "sep \<notin> set a"
    by (meson split_list_first)
  from Split_at_sep[OF a, of b] s Split_nonempty[of b sep] show ?thesis
    by (cases "Split b sep") auto
qed

lemma resolveItems_expansions:
  "resolveItems i ns items res L = Inr (r, L') \<Longrightarrow>
     \<exists>exps. r = res @ concat exps \<and> list_all2 (expansion i ns) items exps"
proof (induction items arbitrary: res L)
  case Nil
  then show ?case by simp
next
  case (Cons item items)
  show ?case
  proof (cases "TrimSpace (Include item) = []")
    case True
    with Cons.prems have "resolveItems i ns items (res @ [item]) L = Inr (r, L')"
      by (simp add: resolveItems_inline)
    from Cons.IH[OF this] obtain exps where
      "r = (res @ [item]) @ concat exps" "list_all2 (expansion i ns) items exps" by blast
    with True have "r = res @ concat ([item] # exps) \<and> list_all2 (expansion i ns) (item # items) ([item] # exps)"
      by (simp add: expansion_def)
    then show ?thesis by blast
  next
    case False
    with Cons.prems obtain n ch c L1 where
      sp: "Split (TrimSpace (Include item)) CHR ''$'' = n # ch" and
      lr: "loadAndResolveDashboardResource i ns n L = Inr (c, L1)" and
      ri: "resolveItems i ns items (res @ composedItems (n # ch) (Items (Spec c))) L1 = Inr (r, L')"
      by (auto simp: resolveItems_include split: list.splits sum.splits prod.splits)
    let ?e = "composedItems (n # ch) (Items (Spec c))"
    from Cons.IH[OF ri] obtain exps where
      "r = (res @ ?e) @ concat exps" "list_all2 (expansion i ns) items exps" by blast
    moreover from False sp lr have "expansion i ns item ?e" unfolding expansion_def by auto
    ultimately have "r = res @ concat (?e # exps) \<and> list_all2 (expansion i ns) (item # items) (?e # exps)"
      by simp
    then show ?thesis by blast
  qed
qed

lemma resolve_deterministic:
  "loadAndResolveDashboardResource i ns t L = Inr (d, L') \<Longrightarrow>
     loadAndResolveDashboardResource i ns t M = Inr (d2, M') \<Longrightarrow> d2 = d"
  "resolveReferences i ns d0 L = Inr (d, L') \<Longrightarrow>
     resolveReferences i ns d0 M = Inr (d2, M') \<Longrightarrow> d2 = d"
  "resolveItems i ns items res L = Inr (r, L') \<Longrightarrow>
     resolveItems i ns items res M = Inr (r2, M') \<Longrightarrow> r2 = r"
proof (induction i ns t L and i ns d0 L and i ns items res L arbitrary: d L' M d2 M' and d L' M d2 M' and r L' M r2 M'
    rule: loadAndResolveDashboardResource_resolveReferences_resolveItems.induct)
  case (1 in' namespace template loaded)
  from "1.prems"(1) obtain d0 where
    t: "template \<notin> loaded" and raw: "loadRawDashboardResource in' namespace template = Inr d0"
    and rr: "resolveReferences in' namespace d0 (insert template loaded) = Inr (d, L')"
    by (auto simp: loadAndResolveDashboardResource.simps split: if_splits sum.splits)
  from "1.prems"(2) raw have "resolveReferences in' namespace d0 (insert template M) = Inr (d2, M')"
    by (auto simp: loadAndResolveDashboardResource.simps split: if_splits sum.splits)
  from "1.IH"[OF t raw rr this] show ?case .
next
  case (2 in' namespace dashboard loaded)
  from "2.prems"(1) obtain r where
    r: "resolveItems in' namespace (Items (Spec dashboard)) [] loaded = Inr (r, L')"
    and d: "d = dashboard\<lparr>Spec := (Spec dashboard)\<lparr>Items := r\<rparr>\<rparr>"
    by (auto simp: resolveReferences.simps split: sum.splits prod.splits)
  from "2.prems"(2) obtain r2 where
    r2: "resolveItems in' namespace (Items (Spec dashboard)) [] M = Inr (r2, M')"
    and d2: "d2 = dashboard\<lparr>Spec := (Spec dashboard)\<lparr>Items := r2\<rparr>\<rparr>"
    by (auto simp: resolveReferences.simps split: sum.splits prod.splits)
  from "2.IH"[OF r r2] d d2 show ?case by simp
next
  case (3 in' namespace resolved loaded)
  then show ?case by simp
next
  case (4 in' namespace item items resolved loaded)
  show ?case
  proof (cases "TrimSpace (Include item) = []")
    case True
    with "4.prems" have a: "resolveItems in' namespace items (resolved @ [item]) loaded = Inr (r, L')"
      and b: "resolveItems in' namespace items (resolved @ [item]) M = Inr (r2, M')"
      by (simp_all add: resolveItems_inline)
    from "4.IH"(3)[OF refl _ a b] True show ?thesis by simp
  next
    case False
    with "4.prems"(1) obtain n ch c L1 where
      sp: "Split (TrimSpace (Include item)) CHR ''$'' = n # ch" and
      lr: "loadAndResolveDashboardResource in' namespace n loaded = Inr (c, L1)" and
      ri: "resolveItems in' namespace items (resolved @ composedItems (n # ch) (Items (Spec c))) L1 = Inr (r, L')"
      by (auto simp: resolveItems_include split: list.splits sum.splits prod.splits)
    from False sp "4.prems"(2) obtain c2 M1 where
      lr2: "loadAndResolveDashboardResource in' namespace n M = Inr (c2, M1)" and
      ri2: "resolveItems in' namespace items (resolved @ composedItems (n # ch) (Items (Spec c2))) M1 = Inr (r2, M')"
      by (auto simp: resolveItems_include split: list.splits sum.splits prod.splits)
    from "4.IH"(1)[OF refl False sp lr lr2] have "c2 = c" .
    with ri2 have "resolveItems in' namespace items (resolved @ composedItems (n # ch) (Items (Spec c))) M1 = Inr (r2, M')"
      by simp
    from "4.IH"(2)[OF refl False sp lr refl ri this] show ?thesis .
  qed
qed

lemma resolved_inline:
  "loadAndResolveDashboardResource i ns t L = Inr (d, L') \<Longrightarrow>
     \<forall>item \<in> set (Items (Spec d)). TrimSpace (Include item) = []"
  "resolveReferences i ns d0 L = Inr (d, L') \<Longrightarrow>
     \<forall>item \<in> set (Items (Spec d)). TrimSpace (Include item) = []"
  "resolveItems i ns items res L = Inr (r, L') \<Longrightarrow> \<forall>item \<in> set res. TrimSpace (Include item) = [] \<Longrightarrow>
     \<forall>item \<in> set r. TrimSpace (Include item) = []"
proof (induction i ns t L and i ns d0 L and i ns items res L arbitrary: d L' and d L' and r L'
    rule: loadAndResolveDashboardResource_resolveReferences_resolveItems.induct)
  case (1 in' namespace template loaded)
  from "1.prems" obtain d0 where
    t: "template \<notin> loaded" and raw: "loadRawDashboardResource in' namespace template = Inr d0"
    and rr: "resolveReferences in' namespace d0 (insert template loaded) = Inr (d, L')"
    by (auto simp: loadAndResolveDashboardResource.simps split: if_splits sum.splits)
  from "1.IH"[OF t raw rr] show ?case .
next
  case (2 in' namespace dashboard loaded)
  from "2.prems"(1) obtain r where
    r: "resolveItems in' namespace (Items (Spec dashboard)) [] loaded = Inr (r, L')"
    and d: "d = dashboard\<lparr>Spec := (Spec dashboard)\<lparr>Items := r\<rparr>\<rparr>"
    by (auto simp: resolveReferences.simps split: sum.splits prod.splits)
  from "2.IH"[OF r] d show ?case by simp
next
  case (3 in' namespace resolved loaded)
  then show ?case by simp
next
  case (4 in' namespace item items resolved loaded)
  show ?case
  proof (cases "TrimSpace (Include item) = []")
    case True
    with "4.prems" have a: "resolveItems in' namespace items (resolved @ [item]) loaded = Inr (r, L')"
      by (simp_all add: resolveItems_inline)
    from "4.IH"(3)[OF refl _ a] True "4.prems"(2) show ?thesis by simp
  next
    case False
    with "4.prems"(1) obtain n ch c L1 where
      sp: "Split (TrimSpace (Include item)) CHR ''$'' = n # ch" and
      lr: "loadAndResolveDashboardResource in' namespace n loaded = Inr (c, L1)" and
      ri: "resolveItems in' namespace items (resolved @ composedItems (n # ch) (Items (Spec c))) L1 = Inr (r, L')"
      by (auto simp: resolveItems_include split: list.splits sum.splits prod.splits)
    from "4.IH"(1)[OF refl False sp lr] have "\<forall>item \<in> set (Items (Spec c)). TrimSpace (Include item) = []" .
    with composedItems_subset[of "n # ch" "Items (Spec c)"] "4.prems"(2)
    have "\<forall>item \<in> set (resolved @ composedItems (n # ch) (Items (Spec c))). TrimSpace (Include item) = []"
      by auto
    from "4.IH"(2)[OF refl False sp lr refl ri this] show ?thesis .
  qed
qed

lemma resolve_items_of:
  assumes "loadRawDashboardResource i ns t = Inr raw"
    and "loadAndResolveDashboardResource i ns t L = Inr (d, L')"
  shows "d = raw\<lparr>Spec := (Spec raw)\<lparr>Items := Items (Spec d)\<rparr>\<rparr>
         \<and> (\<exists>exps. Items (Spec d) = concat exps \<and> list_all2 (expansion i ns) (Items (Spec raw)) exps)"
proof -
  from assms obtain r where
    r: "resolveItems i ns (Items (Spec raw)) [] (insert t L) = Inr (r, L')"
    and d: "d = raw\<lparr>Spec := (Spec raw)\<lparr>Items := r\<rparr>\<rparr>"
    by (auto simp: loadAndResolveDashboardResource.simps resolveReferences.simps split: if_splits sum.splits prod.splits)
  from resolveItems_expansions[OF r] d show ?thesis by auto
qed


lemma expansions_nth:
  assumes "list_all2 (expansion i ns) items exps" "k < length exps"
  shows "expansion i ns (items ! k) (exps ! k)"
  using assms by (simp add: list_all2_conv_all_nth)

lemma TrimSpace_examples:
  "TrimSpace [] = []" "TrimSpace ''B'' = ''B''" "TrimSpace ''B$ChartX'' = ''B$ChartX''"
  by code_simp+

text \<open>
  C3, as amended. For every template that resolves, the resolved dashboard is the raw one
  with its items replaced, and the new items are, in the order of the raw items, what
  each raw item expands to: an inline item (no reference left after trimming) stays as
  it is, at its place; a reference to a whole template (no \<open>$\<close> in it) is replaced by all
  the items of that template as resolved, in their order (every successful resolution
  of a template gives the same dashboard). No item of the result is a reference.
  Template \<open>A\<close> with the three items \<open>a1\<close>, Include \<open>B\<close>, \<open>a3\<close>, where \<open>B\<close> has the inline
  charts \<open>b1\<close> and \<open>b2\<close>, resolves to the four items \<open>a1\<close>, \<open>b1\<close>, \<open>b2\<close>, \<open>a3\<close> (the witness).
\<close>

theorem resolve_whole_include_in_place:
  assumes "loadRawDashboardResource in' namespace template = Inr raw"
    and "loadAndResolveDashboardResource in' namespace template loaded = Inr (d, loaded')"
  shows "d = raw\<lparr>Spec := (Spec raw)\<lparr>Items := Items (Spec d)\<rparr>\<rparr>
     \<and> (\<exists>exps. Items (Spec d) = concat exps \<and> length exps = length (Items (Spec raw))
         \<and> (\<forall>k < length exps.
              (TrimSpace (Include (Items (Spec raw) ! k)) = [] \<longrightarrow> exps ! k = [Items (Spec raw) ! k])
            \<and> (TrimSpace (Include (Items (Spec raw) ! k)) \<noteq> []
                  \<and> CHR ''$'' \<notin> set (TrimSpace (Include (Items (Spec raw) ! k))) \<longrightarrow>
                 (\<exists>c L1 L2. loadAndResolveDashboardResource in' namespace
                                (TrimSpace (Include (Items (Spec raw) ! k))) L1 = Inr (c, L2)
                    \<and> (\<forall>L3 c' L4. loadAndResolveDashboardResource in' namespace
                                (TrimSpace (Include (Items (Spec raw) ! k))) L3 = Inr (c', L4) \<longrightarrow> c' = c)
                    \<and> exps ! k = Items (Spec c)))))
     \<and> (\<forall>item \<in> set (Items (Spec d)). TrimSpace (Include item) = [])"
proof -
  from resolve_items_of[OF assms] obtain exps where
    d: "d = raw\<lparr>Spec := (Spec raw)\<lparr>Items := Items (Spec d)\<rparr>\<rparr>"
    and c: "Items (Spec d) = concat exps" and l: "list_all2 (expansion in' namespace) (Items (Spec raw)) exps"
    by blast
  have len: "length exps = length (Items (Spec raw))" using l by (simp add: list_all2_lengthD)
  have "(TrimSpace (Include (Items (Spec raw) ! k)) = [] \<longrightarrow> exps ! k = [Items (Spec raw) ! k])
            \<and> (TrimSpace (Include (Items (Spec raw) ! k)) \<noteq> []
                  \<and> CHR ''$'' \<notin> set (TrimSpace (Include (Items (Spec raw) ! k))) \<longrightarrow>
                 (\<exists>c L1 L2. loadAndResolveDashboardResource in' namespace
                                (TrimSpace (Include (Items (Spec raw) ! k))) L1 = Inr (c, L2)
                    \<and> (\<forall>L3 c' L4. loadAndResolveDashboardResource in' namespace
                                (TrimSpace (Include (Items (Spec raw) ! k))) L3 = Inr (c', L4) \<longrightarrow> c' = c)
                    \<and> exps ! k = Items (Spec c)))" if k: "k < length exps" for k
  proof (intro conjI impI)
    assume "TrimSpace (Include (Items (Spec raw) ! k)) = []"
    with expansions_nth[OF l k] show "exps ! k = [Items (Spec raw) ! k]" by (simp add: expansion_def)
  next
    let ?ref = "TrimSpace (Include (Items (Spec raw) ! k))"
    assume a: "?ref \<noteq> [] \<and> CHR ''$'' \<notin> set ?ref"
    with expansions_nth[OF l k] obtain n ch c L1 L2 where
      sp: "Split ?ref CHR ''$'' = n # ch" and lr: "loadAndResolveDashboardResource in' namespace n L1 = Inr (c, L2)"
      and e: "exps ! k = composedItems (n # ch) (Items (Spec c))"
      by (auto simp: expansion_def)
    from a sp have n: "n = ?ref" "ch = []" by (simp_all add: Split_no_sep)
    from lr n have lr': "loadAndResolveDashboardResource in' namespace ?ref L1 = Inr (c, L2)" by simp
    have det: "\<forall>L3 c' L4. loadAndResolveDashboardResource in' namespace ?ref L3 = Inr (c', L4) \<longrightarrow> c' = c"
      using resolve_deterministic(1)[OF lr'] by blast
    from e n have "exps ! k = Items (Spec c)" by (simp add: composedItems_whole)
    with lr' det
    show "\<exists>c L1 L2. loadAndResolveDashboardResource in' namespace ?ref L1 = Inr (c, L2)
                    \<and> (\<forall>L3 c' L4. loadAndResolveDashboardResource in' namespace ?ref L3 = Inr (c', L4) \<longrightarrow> c' = c)
                    \<and> exps ! k = Items (Spec c)"
      by blast
  qed
  with d c len resolved_inline(1)[OF assms(2)] show ?thesis by blast
qed

theorem resolve_whole_include_in_place_witness:
  "loadRawDashboardResource wholeInclude ''ns1'' ''A''
     = Inr (templateOf ''A'' [inlineItem ''a1'', includeItem ''B'', inlineItem ''a3''])
   \<and> loadAndResolveDashboardResource wholeInclude ''ns1'' ''A'' {}
     = Inr (templateOf ''A'' [inlineItem ''a1'', inlineItem ''b1'', inlineItem ''b2'', inlineItem ''a3''], {''A'', ''B''})
   \<and> loadAndResolveDashboardResource wholeInclude ''ns1'' ''B'' {}
     = Inr (templateOf ''B'' [inlineItem ''b1'', inlineItem ''b2''], {''B''})
   \<and> (\<exists>exps. [inlineItem ''a1'', inlineItem ''b1'', inlineItem ''b2'', inlineItem ''a3''] = concat exps
         \<and> length exps = 3 \<and> exps ! 0 = [inlineItem ''a1'']
         \<and> exps ! 1 = [inlineItem ''b1'', inlineItem ''b2''] \<and> exps ! 2 = [inlineItem ''a3''])"
proof -
  let ?raw = "templateOf ''A'' [inlineItem ''a1'', includeItem ''B'', inlineItem ''a3'']"
  let ?d = "templateOf ''A'' [inlineItem ''a1'', inlineItem ''b1'', inlineItem ''b2'', inlineItem ''a3'']"
  have raw: "loadRawDashboardResource wholeInclude ''ns1'' ''A'' = Inr ?raw" by code_simp
  have run: "loadAndResolveDashboardResource wholeInclude ''ns1'' ''A'' {} = Inr (?d, {''A'', ''B''})" by code_simp
  have runB: "loadAndResolveDashboardResource wholeInclude ''ns1'' ''B'' {}
     = Inr (templateOf ''B'' [inlineItem ''b1'', inlineItem ''b2''], {''B''})" by code_simp
  have items: "Items (Spec ?raw) = [inlineItem ''a1'', includeItem ''B'', inlineItem ''a3'']"
    "Items (Spec ?d) = [inlineItem ''a1'', inlineItem ''b1'', inlineItem ''b2'', inlineItem ''a3'']"
    "Items (Spec (templateOf ''B'' [inlineItem ''b1'', inlineItem ''b2''])) = [inlineItem ''b1'', inlineItem ''b2'']"
    by (simp_all add: templateOf_def dashboardOf_def)
  have refs: "TrimSpace (Include (inlineItem ''a1'')) = []" "TrimSpace (Include (inlineItem ''a3'')) = []"
    "TrimSpace (Include (includeItem ''B'')) = ''B''"
    by (simp_all add: inlineItem_def includeItem_def TrimSpace_examples)
  from resolve_whole_include_in_place[OF raw run] obtain exps where
    c: "Items (Spec ?d) = concat exps" and len: "length exps = length (Items (Spec ?raw))"
    and each: "\<forall>k < length exps.
              (TrimSpace (Include (Items (Spec ?raw) ! k)) = [] \<longrightarrow> exps ! k = [Items (Spec ?raw) ! k])
            \<and> (TrimSpace (Include (Items (Spec ?raw) ! k)) \<noteq> []
                  \<and> CHR ''$'' \<notin> set (TrimSpace (Include (Items (Spec ?raw) ! k))) \<longrightarrow>
                 (\<exists>c L1 L2. loadAndResolveDashboardResource wholeInclude ''ns1''
                                (TrimSpace (Include (Items (Spec ?raw) ! k))) L1 = Inr (c, L2)
                    \<and> (\<forall>L3 c' L4. loadAndResolveDashboardResource wholeInclude ''ns1''
                                (TrimSpace (Include (Items (Spec ?raw) ! k))) L3 = Inr (c', L4) \<longrightarrow> c' = c)
                    \<and> exps ! k = Items (Spec c)))"
    by blast
  from len have l3: "length exps = 3" by (simp add: items)
  from each[rule_format, of 0] l3 have e0: "exps ! 0 = [inlineItem ''a1'']" by (simp add: items refs)
  from each[rule_format, of 2] l3 have e2: "exps ! 2 = [inlineItem ''a3'']" by (simp add: items refs)
  from each[rule_format, of 1] l3 obtain c where
    det: "\<forall>L3 c' L4. loadAndResolveDashboardResource wholeInclude ''ns1'' ''B'' L3 = Inr (c', L4) \<longrightarrow> c' = c"
    and ek: "exps ! 1 = Items (Spec c)"
    by (auto simp: items refs)
  from det[rule_format, OF runB] have "c = templateOf ''B'' [inlineItem ''b1'', inlineItem ''b2'']"
    by (rule sym)
  with ek have e1: "exps ! 1 = [inlineItem ''b1'', inlineItem ''b2'']" by (simp add: items)
  from c have c': "[inlineItem ''a1'', inlineItem ''b1'', inlineItem ''b2'', inlineItem ''a3''] = concat exps"
    by (simp only: items)
  have ex: "\<exists>exps. [inlineItem ''a1'', inlineItem ''b1'', inlineItem ''b2'', inlineItem ''a3''] = concat exps
         \<and> length exps = 3 \<and> exps ! 0 = [inlineItem ''a1'']
         \<and> exps ! 1 = [inlineItem ''b1'', inlineItem ''b2''] \<and> exps ! 2 = [inlineItem ''a3'']"
    by (intro exI[of _ exps] conjI c' l3 e0 e1 e2)
  show ?thesis by (intro conjI raw run runB ex)
qed

text \<open>
  C3 as stated fails in its example, which has five items listed as four. \<open>A\<close> with the
  three items \<open>a1\<close>, Include \<open>B\<close>, \<open>a3\<close> resolves to four items, not five; and \<open>A\<close> with three
  inline items and the Include at the second place (\<open>a1\<close>, Include \<open>B\<close>, \<open>a2\<close>, \<open>a3\<close>)
  resolves to five items, which are not the four the claim lists.
\<close>

theorem whole_include_example_counts:
  "loadAndResolveDashboardResource wholeInclude ''ns1'' ''A'' {}
     = Inr (templateOf ''A'' [inlineItem ''a1'', inlineItem ''b1'', inlineItem ''b2'', inlineItem ''a3''], {''A'', ''B''})
   \<and> length (Items (Spec (templateOf ''A'' [inlineItem ''a1'', inlineItem ''b1'', inlineItem ''b2'', inlineItem ''a3'']))) = 4
   \<and> loadAndResolveDashboardResource wholeInclude4 ''ns1'' ''A'' {}
     = Inr (templateOf ''A'' [inlineItem ''a1'', inlineItem ''b1'', inlineItem ''b2'', inlineItem ''a2'', inlineItem ''a3''],
            {''A'', ''B''})
   \<and> Items (Spec (templateOf ''A'' [inlineItem ''a1'', inlineItem ''b1'', inlineItem ''b2'', inlineItem ''a2'', inlineItem ''a3'']))
       \<noteq> [inlineItem ''a1'', inlineItem ''b1'', inlineItem ''b2'', inlineItem ''a3'']"
proof -
  have 1: "loadAndResolveDashboardResource wholeInclude ''ns1'' ''A'' {}
     = Inr (templateOf ''A'' [inlineItem ''a1'', inlineItem ''b1'', inlineItem ''b2'', inlineItem ''a3''], {''A'', ''B''})"
    by code_simp
  have 2: "loadAndResolveDashboardResource wholeInclude4 ''ns1'' ''A'' {}
     = Inr (templateOf ''A'' [inlineItem ''a1'', inlineItem ''b1'', inlineItem ''b2'', inlineItem ''a2'', inlineItem ''a3''],
            {''A'', ''B''})"
    by code_simp
  from 1 2 show ?thesis by (simp add: templateOf_def dashboardOf_def)
qed

text \<open>
  C4. For every template that resolves, the items of the resolved dashboard are, in the
  order of the raw items, what each raw item is replaced by: an inline item by itself, a
  reference to a whole template by all the resolved items of that template, and a
  reference of the form \<open>template$chart\<close> (after trimming, with no \<open>$\<close> in either part) by
  the first item of the referred template, as resolved, whose chart name is \<open>chart\<close>, and
  by nothing when there is none; a later item of the same chart name is passed over and
  is no error. In general the template name is the text before the first \<open>$\<close> and the
  chart name the text between the first \<open>$\<close> and the next: a reference with a \<open>$\<close> has
  these two pieces (lemma \<open>Split_two\<close>), so the three cases leave no item out, and the
  resolved items are determined. \<open>A\<close> with the items \<open>a1\<close>, Include \<open>B$ChartX\<close>, \<open>a3\<close>, where
  \<open>B\<close> has the charts \<open>ChartX\<close>, \<open>ChartY\<close> and a second \<open>ChartX\<close>, has the first \<open>ChartX\<close>
  alone at that place, between \<open>a1\<close> and \<open>a3\<close> (the witness).
\<close>

theorem resolve_scoped_include_first_chart:
  assumes "loadRawDashboardResource in' namespace template = Inr raw"
    and "loadAndResolveDashboardResource in' namespace template loaded = Inr (d, loaded')"
  shows "d = raw\<lparr>Spec := (Spec raw)\<lparr>Items := Items (Spec d)\<rparr>\<rparr>
     \<and> (\<exists>exps. Items (Spec d) = concat exps \<and> length exps = length (Items (Spec raw))
         \<and> (\<forall>k < length exps.
              (TrimSpace (Include (Items (Spec raw) ! k)) = [] \<longrightarrow> exps ! k = [Items (Spec raw) ! k])
            \<and> (TrimSpace (Include (Items (Spec raw) ! k)) \<noteq> []
                  \<and> CHR ''$'' \<notin> set (TrimSpace (Include (Items (Spec raw) ! k))) \<longrightarrow>
                 (\<exists>c L1 L2. loadAndResolveDashboardResource in' namespace
                                (TrimSpace (Include (Items (Spec raw) ! k))) L1 = Inr (c, L2)
                    \<and> (\<forall>L3 c' L4. loadAndResolveDashboardResource in' namespace
                                (TrimSpace (Include (Items (Spec raw) ! k))) L3 = Inr (c', L4) \<longrightarrow> c' = c)
                    \<and> exps ! k = Items (Spec c)))
            \<and> (\<forall>ref chart. TrimSpace (Include (Items (Spec raw) ! k)) = ref @ ''$'' @ chart
                  \<and> CHR ''$'' \<notin> set ref \<and> CHR ''$'' \<notin> set chart \<longrightarrow>
                 (\<exists>c L1 L2. loadAndResolveDashboardResource in' namespace ref L1 = Inr (c, L2)
                    \<and> (\<forall>L3 c' L4. loadAndResolveDashboardResource in' namespace ref L3 = Inr (c', L4) \<longrightarrow> c' = c)
                    \<and> exps ! k = (case find (\<lambda>item2. chart_Name (Chart item2) = chart) (Items (Spec c)) of
                                    None \<Rightarrow> [] | Some item2 \<Rightarrow> [item2])))
            \<and> (\<forall>ref chart rest. TrimSpace (Include (Items (Spec raw) ! k)) \<noteq> []
                  \<and> Split (TrimSpace (Include (Items (Spec raw) ! k))) CHR ''$'' = ref # chart # rest \<longrightarrow>
                 (\<exists>c L1 L2. loadAndResolveDashboardResource in' namespace ref L1 = Inr (c, L2)
                    \<and> (\<forall>L3 c' L4. loadAndResolveDashboardResource in' namespace ref L3 = Inr (c', L4) \<longrightarrow> c' = c)
                    \<and> exps ! k = (case find (\<lambda>item2. chart_Name (Chart item2) = chart) (Items (Spec c)) of
                                    None \<Rightarrow> [] | Some item2 \<Rightarrow> [item2])))))"
proof -
  from resolve_items_of[OF assms] obtain exps where
    d: "d = raw\<lparr>Spec := (Spec raw)\<lparr>Items := Items (Spec d)\<rparr>\<rparr>"
    and c: "Items (Spec d) = concat exps" and l: "list_all2 (expansion in' namespace) (Items (Spec raw)) exps"
    by blast
  have len: "length exps = length (Items (Spec raw))" using l by (simp add: list_all2_lengthD)
  have inline: "exps ! k = [Items (Spec raw) ! k]"
    if k: "k < length exps" and "TrimSpace (Include (Items (Spec raw) ! k)) = []" for k
    using expansions_nth[OF l k] that(2) by (simp add: expansion_def)
  have whole: "\<exists>c L1 L2. loadAndResolveDashboardResource in' namespace
                                (TrimSpace (Include (Items (Spec raw) ! k))) L1 = Inr (c, L2)
                    \<and> (\<forall>L3 c' L4. loadAndResolveDashboardResource in' namespace
                                (TrimSpace (Include (Items (Spec raw) ! k))) L3 = Inr (c', L4) \<longrightarrow> c' = c)
                    \<and> exps ! k = Items (Spec c)"
    if k: "k < length exps" and a: "TrimSpace (Include (Items (Spec raw) ! k)) \<noteq> []
                  \<and> CHR ''$'' \<notin> set (TrimSpace (Include (Items (Spec raw) ! k)))" for k
  proof -
    let ?ref = "TrimSpace (Include (Items (Spec raw) ! k))"
    from a expansions_nth[OF l k] obtain n ch c L1 L2 where
      sp: "Split ?ref CHR ''$'' = n # ch" and lr: "loadAndResolveDashboardResource in' namespace n L1 = Inr (c, L2)"
      and e: "exps ! k = composedItems (n # ch) (Items (Spec c))"
      by (auto simp: expansion_def)
    from a sp have n: "n = ?ref" "ch = []" by (simp_all add: Split_no_sep)
    from lr n have lr': "loadAndResolveDashboardResource in' namespace ?ref L1 = Inr (c, L2)" by simp
    have det: "\<forall>L3 c' L4. loadAndResolveDashboardResource in' namespace ?ref L3 = Inr (c', L4) \<longrightarrow> c' = c"
      using resolve_deterministic(1)[OF lr'] by blast
    from e n have "exps ! k = Items (Spec c)" by (simp add: composedItems_whole)
    with lr' det show ?thesis by blast
  qed
  have general: "\<exists>c L1 L2. loadAndResolveDashboardResource in' namespace ref L1 = Inr (c, L2)
                    \<and> (\<forall>L3 c' L4. loadAndResolveDashboardResource in' namespace ref L3 = Inr (c', L4) \<longrightarrow> c' = c)
                    \<and> exps ! k = (case find (\<lambda>item2. chart_Name (Chart item2) = chart) (Items (Spec c)) of
                                    None \<Rightarrow> [] | Some item2 \<Rightarrow> [item2])"
    if k: "k < length exps" and ne: "TrimSpace (Include (Items (Spec raw) ! k)) \<noteq> []"
      and sp: "Split (TrimSpace (Include (Items (Spec raw) ! k))) CHR ''$'' = ref # chart # rest"
    for k ref chart rest
  proof -
    from expansions_nth[OF l k] ne sp obtain c L1 L2 where
      lr: "loadAndResolveDashboardResource in' namespace ref L1 = Inr (c, L2)"
      and e: "exps ! k = composedItems (ref # chart # rest) (Items (Spec c))"
      by (auto simp: expansion_def)
    have det: "\<forall>L3 c' L4. loadAndResolveDashboardResource in' namespace ref L3 = Inr (c', L4) \<longrightarrow> c' = c"
      using resolve_deterministic(1)[OF lr] by blast
    from e have "exps ! k = (case find (\<lambda>item2. chart_Name (Chart item2) = chart) (Items (Spec c)) of
                                    None \<Rightarrow> [] | Some item2 \<Rightarrow> [item2])"
      by (simp add: composedItems_chart)
    with lr det show ?thesis by blast
  qed
  have form: "\<exists>c L1 L2. loadAndResolveDashboardResource in' namespace ref L1 = Inr (c, L2)
                    \<and> (\<forall>L3 c' L4. loadAndResolveDashboardResource in' namespace ref L3 = Inr (c', L4) \<longrightarrow> c' = c)
                    \<and> exps ! k = (case find (\<lambda>item2. chart_Name (Chart item2) = chart) (Items (Spec c)) of
                                    None \<Rightarrow> [] | Some item2 \<Rightarrow> [item2])"
    if k: "k < length exps" and f: "TrimSpace (Include (Items (Spec raw) ! k)) = ref @ ''$'' @ chart
      \<and> CHR ''$'' \<notin> set ref \<and> CHR ''$'' \<notin> set chart"
    for k ref chart
  proof -
    from f have "Split (TrimSpace (Include (Items (Spec raw) ! k))) CHR ''$'' = ref # chart # []"
      by (simp add: Split_at_sep Split_no_sep)
    moreover from f have "TrimSpace (Include (Items (Spec raw) ! k)) \<noteq> []" by simp
    ultimately show ?thesis using general[OF k] by blast
  qed
  have general': "\<exists>c L1 L2. loadAndResolveDashboardResource in' namespace ref L1 = Inr (c, L2)
                    \<and> (\<forall>L3 c' L4. loadAndResolveDashboardResource in' namespace ref L3 = Inr (c', L4) \<longrightarrow> c' = c)
                    \<and> exps ! k = (case find (\<lambda>item2. chart_Name (Chart item2) = chart) (Items (Spec c)) of
                                    None \<Rightarrow> [] | Some item2 \<Rightarrow> [item2])"
    if k: "k < length exps" and g: "TrimSpace (Include (Items (Spec raw) ! k)) \<noteq> []
                  \<and> Split (TrimSpace (Include (Items (Spec raw) ! k))) CHR ''$'' = ref # chart # rest"
    for k ref chart rest
    using general[OF k g[THEN conjunct1] g[THEN conjunct2]] .
  show ?thesis
  proof (intro conjI exI[of _ exps] allI impI)
    show "d = raw\<lparr>Spec := (Spec raw)\<lparr>Items := Items (Spec d)\<rparr>\<rparr>" by (rule d)
    show "Items (Spec d) = concat exps" by (rule c)
    show "length exps = length (Items (Spec raw))" by (rule len)
  qed (erule (1) inline whole form general')+
qed

theorem resolve_scoped_include_first_chart_witness:
  "loadRawDashboardResource scopedInclude ''ns1'' ''A''
     = Inr (templateOf ''A'' [inlineItem ''a1'', includeItem ''B$ChartX'', inlineItem ''a3''])
   \<and> loadAndResolveDashboardResource scopedInclude ''ns1'' ''A'' {}
     = Inr (templateOf ''A'' [inlineItem ''a1'', inlineItem ''ChartX'', inlineItem ''a3''], {''A'', ''B''})
   \<and> loadAndResolveDashboardResource scopedInclude ''ns1'' ''B'' {}
     = Inr (templateOf ''B'' [inlineItem ''ChartX'', inlineItem ''ChartY'', chartX2], {''B''})
   \<and> chart_Name (Chart chartX2) = ''ChartX'' \<and> chartX2 \<noteq> inlineItem ''ChartX''
   \<and> (\<exists>exps. [inlineItem ''a1'', inlineItem ''ChartX'', inlineItem ''a3''] = concat exps
         \<and> exps = [[inlineItem ''a1''], [inlineItem ''ChartX''], [inlineItem ''a3'']])"
proof -
  let ?raw = "templateOf ''A'' [inlineItem ''a1'', includeItem ''B$ChartX'', inlineItem ''a3'']"
  let ?d = "templateOf ''A'' [inlineItem ''a1'', inlineItem ''ChartX'', inlineItem ''a3'']"
  let ?B = "templateOf ''B'' [inlineItem ''ChartX'', inlineItem ''ChartY'', chartX2]"
  have raw: "loadRawDashboardResource scopedInclude ''ns1'' ''A'' = Inr ?raw" by code_simp
  have run: "loadAndResolveDashboardResource scopedInclude ''ns1'' ''A'' {} = Inr (?d, {''A'', ''B''})" by code_simp
  have runB: "loadAndResolveDashboardResource scopedInclude ''ns1'' ''B'' {} = Inr (?B, {''B''})" by code_simp
  have x2: "chart_Name (Chart chartX2) = ''ChartX''" "chartX2 \<noteq> inlineItem ''ChartX''"
    by (simp_all add: chartX2_def chartNamed_def inlineItem_def)
  have items: "Items (Spec ?raw) = [inlineItem ''a1'', includeItem ''B$ChartX'', inlineItem ''a3'']"
    "Items (Spec ?d) = [inlineItem ''a1'', inlineItem ''ChartX'', inlineItem ''a3'']"
    "Items (Spec ?B) = [inlineItem ''ChartX'', inlineItem ''ChartY'', chartX2]"
    by (simp_all add: templateOf_def dashboardOf_def)
  have ref: "TrimSpace (Include (includeItem ''B$ChartX'')) = ''B'' @ ''$'' @ ''ChartX''"
    by (simp add: includeItem_def TrimSpace_examples)
  have inl: "TrimSpace (Include (inlineItem n)) = []" for n
    by (simp add: inlineItem_def TrimSpace_examples)
  have first: "(case find (\<lambda>item2. chart_Name (Chart item2) = ''ChartX'') (Items (Spec ?B)) of
                  None \<Rightarrow> [] | Some item2 \<Rightarrow> [item2]) = [inlineItem ''ChartX'']"
    by (simp add: templateOf_def dashboardOf_def inlineItem_def chartNamed_def)
  from resolve_scoped_include_first_chart[OF raw run, THEN conjunct2] obtain exps where
    c: "Items (Spec ?d) = concat exps" and len: "length exps = length (Items (Spec ?raw))"
    and each: "\<forall>k < length exps.
              (TrimSpace (Include (Items (Spec ?raw) ! k)) = [] \<longrightarrow> exps ! k = [Items (Spec ?raw) ! k])
            \<and> (TrimSpace (Include (Items (Spec ?raw) ! k)) \<noteq> []
                  \<and> CHR ''$'' \<notin> set (TrimSpace (Include (Items (Spec ?raw) ! k))) \<longrightarrow>
                 (\<exists>c L1 L2. loadAndResolveDashboardResource scopedInclude ''ns1''
                                (TrimSpace (Include (Items (Spec ?raw) ! k))) L1 = Inr (c, L2)
                    \<and> (\<forall>L3 c' L4. loadAndResolveDashboardResource scopedInclude ''ns1''
                                (TrimSpace (Include (Items (Spec ?raw) ! k))) L3 = Inr (c', L4) \<longrightarrow> c' = c)
                    \<and> exps ! k = Items (Spec c)))
            \<and> (\<forall>ref chart. TrimSpace (Include (Items (Spec ?raw) ! k)) = ref @ ''$'' @ chart
                  \<and> CHR ''$'' \<notin> set ref \<and> CHR ''$'' \<notin> set chart \<longrightarrow>
                 (\<exists>c L1 L2. loadAndResolveDashboardResource scopedInclude ''ns1'' ref L1 = Inr (c, L2)
                    \<and> (\<forall>L3 c' L4. loadAndResolveDashboardResource scopedInclude ''ns1'' ref L3 = Inr (c', L4) \<longrightarrow> c' = c)
                    \<and> exps ! k = (case find (\<lambda>item2. chart_Name (Chart item2) = chart) (Items (Spec c)) of
                                    None \<Rightarrow> [] | Some item2 \<Rightarrow> [item2])))
            \<and> (\<forall>ref chart rest. TrimSpace (Include (Items (Spec ?raw) ! k)) \<noteq> []
                  \<and> Split (TrimSpace (Include (Items (Spec ?raw) ! k))) CHR ''$'' = ref # chart # rest \<longrightarrow>
                 (\<exists>c L1 L2. loadAndResolveDashboardResource scopedInclude ''ns1'' ref L1 = Inr (c, L2)
                    \<and> (\<forall>L3 c' L4. loadAndResolveDashboardResource scopedInclude ''ns1'' ref L3 = Inr (c', L4) \<longrightarrow> c' = c)
                    \<and> exps ! k = (case find (\<lambda>item2. chart_Name (Chart item2) = chart) (Items (Spec c)) of
                                    None \<Rightarrow> [] | Some item2 \<Rightarrow> [item2])))"
    by (elim exE conjE) (rule that)
  from len have l3: "length exps = 3" by (simp add: items)
  have k0: "TrimSpace (Include (Items (Spec ?raw) ! 0)) = []" by (simp add: items inl)
  have k2: "TrimSpace (Include (Items (Spec ?raw) ! 2)) = []" by (simp add: items inl)
  have k1: "TrimSpace (Include (Items (Spec ?raw) ! 1)) = ''B'' @ ''$'' @ ''ChartX''
              \<and> CHR ''$'' \<notin> set ''B'' \<and> CHR ''$'' \<notin> set ''ChartX''"
    using ref by (simp add: items)
  from each[rule_format, of 0, THEN conjunct1, rule_format, OF _ k0] l3
  have e0: "exps ! 0 = [inlineItem ''a1'']" by (simp add: items)
  from each[rule_format, of 2, THEN conjunct1, rule_format, OF _ k2] l3
  have e2: "exps ! 2 = [inlineItem ''a3'']" by (simp add: items)
  from each[rule_format, of 1, THEN conjunct2, THEN conjunct2, THEN conjunct1, rule_format, OF _ k1] l3 obtain c where
    det: "\<forall>L3 c' L4. loadAndResolveDashboardResource scopedInclude ''ns1'' ''B'' L3 = Inr (c', L4) \<longrightarrow> c' = c"
    and ek: "exps ! 1 = (case find (\<lambda>item2. chart_Name (Chart item2) = ''ChartX'') (Items (Spec c)) of
                                    None \<Rightarrow> [] | Some item2 \<Rightarrow> [item2])"
    by auto
  from det[rule_format, OF runB] have "c = ?B" by (rule sym)
  with ek have "exps ! 1 = (case find (\<lambda>item2. chart_Name (Chart item2) = ''ChartX'') (Items (Spec ?B)) of
                                    None \<Rightarrow> [] | Some item2 \<Rightarrow> [item2])" by simp
  with first have e1: "exps ! 1 = [inlineItem ''ChartX'']" by simp
  from l3 obtain x0 x1 x2 where all3: "exps = [x0, x1, x2]"
    by (auto simp: numeral_3_eq_3 length_Suc_conv)
  have e: "exps = [[inlineItem ''a1''], [inlineItem ''ChartX''], [inlineItem ''a3'']]"
    using e0 e1 e2 unfolding all3 by simp
  from c have c': "[inlineItem ''a1'', inlineItem ''ChartX'', inlineItem ''a3''] = concat exps"
    by (simp only: items)
  have ex: "\<exists>exps. [inlineItem ''a1'', inlineItem ''ChartX'', inlineItem ''a3''] = concat exps
         \<and> exps = [[inlineItem ''a1''], [inlineItem ''ChartX''], [inlineItem ''a3'']]"
    by (intro exI[of _ exps] conjI c' e)
  show ?thesis by (intro conjI raw run runB x2 ex)
qed

end
